theory Spec2Isabelle
  imports Main "HOL-Library.Char_ord"
begin

text \<open>
  A model of the price-index extractor \<open>cmd/extract/main.go\<close>: the plan code extraction
  from a location URL, the heuristic tables, the three modes of the classification
  pipeline, the record correlator, the document walker, and \<open>run\<close> and \<open>main\<close>. The global
  variables and the standard output are an explicit state, the errors are values, and
  the loops are recursive functions over the elements they visit. The statements proved
  about the model follow the definitions.
\<close>

section \<open>Go strings\<close>

text \<open>
  A Go string is a sequence of bytes, here a \<^typ>\<open>string\<close> (a list of 8-bit characters).
  Positions are Go \<open>int\<close>s, modelled as \<^typ>\<open>int\<close>, with \<open>-1\<close> for "not found" as
  \<open>strings.Index\<close> returns it.
\<close>

text \<open>A byte within a range of bytes, as in \<open>'a' <= c && c <= 'z'\<close>.\<close>

definition byteIn :: "char \<Rightarrow> char \<Rightarrow> char \<Rightarrow> bool" where
  "byteIn c lo hi = (lo \<le> c \<and> c \<le> hi)"

definition toLowerByte :: "char \<Rightarrow> char" where
  "toLowerByte c =
     (if byteIn c CHR ''A'' CHR ''Z'' then char_of (of_char c + (32::nat)) else c)"

text \<open>
  \<open>strings.ToLower\<close> maps every rune to its Unicode lower case. On a string whose bytes
  are all below \<open>0x80\<close> that is the byte-wise map below. On other strings the two differ:
  Go maps the Kelvin sign U+212A to \<open>k\<close> and U+0130 to \<open>i\<close>, and replaces invalid UTF-8,
  while bytes from \<open>0x80\<close> on are left as they are here. The tables and literals of the
  program are ASCII. Statements that say which inputs match are made over any
  lower-casing function, in the section on the library as a parameter.
\<close>

definition strings_ToLower :: "string \<Rightarrow> string" where
  "strings_ToLower s = map toLowerByte s"

definition strings_HasPrefix :: "string \<Rightarrow> string \<Rightarrow> bool" where
  "strings_HasPrefix s p = (take (length p) s = p)"

definition strings_HasSuffix :: "string \<Rightarrow> string \<Rightarrow> bool" where
  "strings_HasSuffix s p = (length p \<le> length s \<and> drop (length s - length p) s = p)"

fun index_from :: "string \<Rightarrow> string \<Rightarrow> int \<Rightarrow> int" where
  "index_from sub [] i = (if sub = [] then i else -1)"
| "index_from sub (c # s) i =
     (if strings_HasPrefix (c # s) sub then i else index_from sub s (i + 1))"

definition strings_Index :: "string \<Rightarrow> string \<Rightarrow> int" where
  "strings_Index s sub = index_from sub s 0"

fun last_index_from :: "string \<Rightarrow> string \<Rightarrow> int \<Rightarrow> int \<Rightarrow> int" where
  "last_index_from sub [] i found = (if sub = [] then i else found)"
| "last_index_from sub (c # s) i found =
     last_index_from sub s (i + 1) (if strings_HasPrefix (c # s) sub then i else found)"

definition strings_LastIndex :: "string \<Rightarrow> string \<Rightarrow> int" where
  "strings_LastIndex s sub = last_index_from sub s 0 (-1)"

definition strings_Contains :: "string \<Rightarrow> string \<Rightarrow> bool" where
  "strings_Contains s sub = (strings_Index s sub \<ge> 0)"

definition strings_Count :: "string \<Rightarrow> char \<Rightarrow> nat" where
  "strings_Count s c = length (filter (\<lambda>x. x = c) s)"

text \<open>\<open>strings.Cut(s, sep)\<close>: the text before and after the first \<open>sep\<close>, and whether it was found.\<close>

definition strings_Cut :: "string \<Rightarrow> string \<Rightarrow> string \<times> string \<times> bool" where
  "strings_Cut s sep =
     (let i = strings_Index s sep in
      if i \<ge> 0 then (take (nat i) s, drop (nat i + length sep) s, True) else (s, [], False))"

text \<open>The slice expressions \<open>s[i:]\<close> and \<open>s[i:j]\<close>, for indices within the string.\<close>

definition slice_from :: "string \<Rightarrow> int \<Rightarrow> string" where
  "slice_from s i = drop (nat i) s"

definition slice :: "string \<Rightarrow> int \<Rightarrow> int \<Rightarrow> string" where
  "slice s i j = take (nat j - nat i) (drop (nat i) s)"

section \<open>Errors\<close>

text \<open>
  The errors of \<open>url.Parse\<close>; and the errors of the program, one for each of its messages,
  with the errors it only passes on: of the decoder, of the service, of \<open>ollama.New\<close> and
  of opening the file.
\<close>

datatype url_error =
    InvalidControlCharacter
  | MissingProtocolScheme
  | FirstPathSegmentColon
  | InvalidPort
  | MissingBracket
  | InvalidUserinfo
  | InvalidHost
  | EscapeError

datatype error =
    UrlError url_error
  | NoFilenameInUrlPath
  | FilenameNoUnderscores
  | FilenameNotEnoughUnderscores
  | InvalidUnderscorePositions
  | ExpectedRootObject
  | ReportingStructureNotArray
  | ExpectedObjectInReportingStructure
  | UnknownMode
  | ReportingPlansNotArray
  | InNetworkFilesNotArray
  | DecodeReportingPlan
  | DecodePlan
  | LlmUnavailable
  | UsageError
  | OpenOllamaFailed
  | OpenFileStream
  | OpenGzipStream

section \<open>The library functions \<open>url.Parse\<close> and \<open>path.Base\<close>\<close>

text \<open>
  \<open>ExtractPlanCode\<close> reads only the \<open>Path\<close> field of the parsed URL. The functions below
  follow \<open>net/url\<close> (as of Go 1.21) for what decides whether parsing fails and what \<open>Path\<close>
  is: the control-character check, the fragment and query cuts, the scheme, opaque URLs,
  the authority and the percent-decoding of the path.
\<close>

datatype encoding = encodePath | encodeHost | encodeZone | encodeUserPassword

definition ishex :: "char \<Rightarrow> bool" where
  "ishex c = (byteIn c CHR ''0'' CHR ''9'' \<or> byteIn c CHR ''a'' CHR ''f''
              \<or> byteIn c CHR ''A'' CHR ''F'')"

definition unhex :: "char \<Rightarrow> nat" where
  "unhex c =
     (if byteIn c CHR ''0'' CHR ''9'' then of_char c - of_char CHR ''0''
      else if byteIn c CHR ''a'' CHR ''f'' then of_char c - of_char CHR ''a'' + 10
      else if byteIn c CHR ''A'' CHR ''F'' then of_char c - of_char CHR ''A'' + 10
      else 0)"

definition isAlnum :: "char \<Rightarrow> bool" where
  "isAlnum c = (byteIn c CHR ''a'' CHR ''z'' \<or> byteIn c CHR ''A'' CHR ''Z''
                \<or> byteIn c CHR ''0'' CHR ''9'')"

text \<open>\<open>shouldEscape(c, encodeHost)\<close>: the bytes a host may not hold unescaped.\<close>

definition shouldEscapeHost :: "char \<Rightarrow> bool" where
  "shouldEscapeHost c = (\<not> isAlnum c \<and> c \<notin> set ''!$&'()*+,;=:[]<>\"-_.~'')"

fun unescape :: "encoding \<Rightarrow> string \<Rightarrow> url_error + string" where
  "unescape mode [] = Inr []"
| "unescape mode (c # s) =
     (if c = CHR ''%'' then
        (case s of
           h1 # h2 # rest \<Rightarrow>
             if \<not> ishex h1 \<or> \<not> ishex h2 then Inl EscapeError
             else if mode = encodeHost \<and> unhex h1 < 8 \<and> [h1, h2] \<noteq> ''25'' then Inl EscapeError
             else if mode = encodeZone \<and> [h1, h2] \<noteq> ''25''
                     \<and> char_of (unhex h1 * 16 + unhex h2) \<noteq> CHR '' ''
                     \<and> shouldEscapeHost (char_of (unhex h1 * 16 + unhex h2)) then Inl EscapeError
             else (case unescape mode rest of
                     Inl e \<Rightarrow> Inl e
                   | Inr r \<Rightarrow> Inr (char_of (unhex h1 * 16 + unhex h2) # r))
         | _ \<Rightarrow> Inl EscapeError)
      else if (mode = encodeHost \<or> mode = encodeZone) \<and> of_char c < (128::nat) \<and> shouldEscapeHost c
        then Inl InvalidHost
      else (case unescape mode s of Inl e \<Rightarrow> Inl e | Inr r \<Rightarrow> Inr (c # r)))"

definition stringContainsCTLByte :: "string \<Rightarrow> bool" where
  "stringContainsCTLByte s = (\<exists>b \<in> set s. b < CHR '' '' \<or> b = char_of (127::nat))"

text \<open>\<open>getScheme\<close>: the scheme and the rest, or the error of a URL that starts with a colon.\<close>

fun getScheme_from :: "string \<Rightarrow> nat \<Rightarrow> string \<Rightarrow> url_error + string \<times> string" where
  "getScheme_from rawURL i [] = Inr ([], rawURL)"
| "getScheme_from rawURL i (c # cs) =
     (if byteIn c CHR ''a'' CHR ''z'' \<or> byteIn c CHR ''A'' CHR ''Z''
        then getScheme_from rawURL (i + 1) cs
      else if byteIn c CHR ''0'' CHR ''9'' \<or> c = CHR ''+'' \<or> c = CHR ''-'' \<or> c = CHR ''.''
        then (if i = 0 then Inr ([], rawURL) else getScheme_from rawURL (i + 1) cs)
      else if c = CHR '':''
        then (if i = 0 then Inl MissingProtocolScheme else Inr (take i rawURL, cs))
      else Inr ([], rawURL))"

definition getScheme :: "string \<Rightarrow> url_error + string \<times> string" where
  "getScheme rawURL = getScheme_from rawURL 0 rawURL"

definition validOptionalPort :: "string \<Rightarrow> bool" where
  "validOptionalPort port =
     (case port of
        [] \<Rightarrow> True
      | c # ds \<Rightarrow> c = CHR '':'' \<and> (\<forall>b \<in> set ds. byteIn b CHR ''0'' CHR ''9''))"

definition validUserinfo :: "string \<Rightarrow> bool" where
  "validUserinfo s = (\<forall>r \<in> set s. isAlnum r \<or> r \<in> set ''-._:~!$&'()*+,;=%@'')"

definition parseHost :: "string \<Rightarrow> url_error + string" where
  "parseHost host =
     (if strings_HasPrefix host ''['' then
        (let i = strings_LastIndex host '']'' in
         if i < 0 then Inl MissingBracket
         else if \<not> validOptionalPort (slice_from host (i + 1)) then Inl InvalidPort
         else
           (let zone = strings_Index (slice host 0 i) ''%25'' in
            if zone \<ge> 0 then
              (case unescape encodeHost (slice host 0 zone) of
                 Inl e \<Rightarrow> Inl e
               | Inr host1 \<Rightarrow>
                  (case unescape encodeZone (slice host zone i) of
                     Inl e \<Rightarrow> Inl e
                   | Inr host2 \<Rightarrow>
                      (case unescape encodeHost (slice_from host i) of
                         Inl e \<Rightarrow> Inl e
                       | Inr host3 \<Rightarrow> Inr (host1 @ host2 @ host3))))
            else unescape encodeHost host))
      else
        (let i = strings_LastIndex host '':'' in
         if i \<noteq> -1 \<and> \<not> validOptionalPort (slice_from host i) then Inl InvalidPort
         else unescape encodeHost host))"

text \<open>\<open>parseAuthority\<close>, for its host and its error; the user information is only validated.\<close>

definition parseAuthority :: "string \<Rightarrow> url_error + string" where
  "parseAuthority authority =
     (let i = strings_LastIndex authority ''@'' in
      case (if i < 0 then parseHost authority else parseHost (slice_from authority (i + 1))) of
        Inl e \<Rightarrow> Inl e
      | Inr host \<Rightarrow>
          if i < 0 then Inr host
          else
            (let userinfo = slice authority 0 i in
             if \<not> validUserinfo userinfo then Inl InvalidUserinfo
             else
               (case strings_Cut userinfo '':'' of
                  (username, password, _) \<Rightarrow>
                    (case unescape encodeUserPassword username of
                       Inl e \<Rightarrow> Inl e
                     | Inr _ \<Rightarrow>
                        (case unescape encodeUserPassword password of
                           Inl e \<Rightarrow> Inl e
                         | Inr _ \<Rightarrow> Inr host)))))"

record URL =
  Scheme :: string
  Opaque :: string
  Host :: string
  Path :: string
  RawQuery :: string
  Fragment :: string

definition empty_URL :: URL where
  "empty_URL = \<lparr>Scheme = [], Opaque = [], Host = [], Path = [], RawQuery = [], Fragment = []\<rparr>"

text \<open>\<open>parse(rawURL, viaRequest = false)\<close>, the URL without its fragment.\<close>

definition url_parse :: "string \<Rightarrow> url_error + URL" where
  "url_parse rawURL =
     (if stringContainsCTLByte rawURL then Inl InvalidControlCharacter
      else if rawURL = ''*'' then Inr (empty_URL\<lparr>Path := ''*''\<rparr>)
      else
        (case getScheme rawURL of
           Inl e \<Rightarrow> Inl e
         | Inr (scheme0, rest0) \<Rightarrow>
            (let scheme = strings_ToLower scheme0;
                 (rest1, query) =
                    (if strings_HasSuffix rest0 ''?'' \<and> strings_Count rest0 CHR ''?'' = 1
                     then (take (length rest0 - 1) rest0, [])
                     else (case strings_Cut rest0 ''?'' of (a, b, _) \<Rightarrow> (a, b)));
                 u = empty_URL\<lparr>Scheme := scheme, RawQuery := query\<rparr>
             in
             if \<not> strings_HasPrefix rest1 ''/'' \<and> scheme \<noteq> [] then Inr (u\<lparr>Opaque := rest1\<rparr>)
             else if \<not> strings_HasPrefix rest1 ''/''
                     \<and> strings_Contains (fst (strings_Cut rest1 ''/'')) '':''
               then Inl FirstPathSegmentColon
             else if (scheme \<noteq> [] \<or> \<not> strings_HasPrefix rest1 ''///'')
                     \<and> strings_HasPrefix rest1 ''//'' then
               (let authority0 = slice_from rest1 2;
                    i = strings_Index authority0 ''/'';
                    authority = (if i \<ge> 0 then slice authority0 0 i else authority0);
                    rest = (if i \<ge> 0 then slice_from authority0 i else [])
                in
                case parseAuthority authority of
                  Inl e \<Rightarrow> Inl e
                | Inr host \<Rightarrow>
                   (case unescape encodePath rest of
                      Inl e \<Rightarrow> Inl e
                    | Inr p \<Rightarrow> Inr (u\<lparr>Host := host, Path := p\<rparr>)))
             else
               (case unescape encodePath rest1 of
                  Inl e \<Rightarrow> Inl e
                | Inr p \<Rightarrow> Inr (u\<lparr>Path := p\<rparr>)))))"

text \<open>\<open>url.Parse\<close>: cut the fragment off, parse the rest, decode the fragment.\<close>

definition url_Parse :: "string \<Rightarrow> url_error + URL" where
  "url_Parse rawURL =
     (case strings_Cut rawURL ''#'' of
        (u, frag, _) \<Rightarrow>
          (case url_parse u of
             Inl e \<Rightarrow> Inl e
           | Inr url \<Rightarrow>
               if frag = [] then Inr url
               else (case unescape encodePath frag of
                       Inl e \<Rightarrow> Inl e
                     | Inr f \<Rightarrow> Inr (url\<lparr>Fragment := f\<rparr>))))"

text \<open>\<open>path.Base\<close>: the last element of a slash-separated path.\<close>

fun stripTrailingSlashes :: "string \<Rightarrow> string" where
  "stripTrailingSlashes p =
     (if p \<noteq> [] \<and> last p = CHR ''/'' then stripTrailingSlashes (butlast p) else p)"

declare stripTrailingSlashes.simps [simp del]

definition path_Base :: "string \<Rightarrow> string" where
  "path_Base p =
     (if p = [] then ''.''
      else
        (let p1 = stripTrailingSlashes p;
             i = strings_LastIndex p1 ''/'';
             p2 = (if i \<ge> 0 then slice_from p1 (i + 1) else p1)
         in if p2 = [] then ''/'' else p2))"

section \<open>Plan code extraction\<close>

text \<open>
  \<open>ExtractPlanCode\<close> of the source, branch by branch. The three positions are Go \<open>int\<close>s;
  the second and the third search start one byte after the previous underscore.
\<close>

definition ExtractPlanCode :: "string \<Rightarrow> error + string" where
  "ExtractPlanCode rawURL =
     (case url_Parse rawURL of
        Inl err \<Rightarrow> Inl (UrlError err)
      | Inr u \<Rightarrow>
         (let filename = path_Base (Path u) in
          if filename = [] \<or> filename = ''/'' then Inl NoFilenameInUrlPath
          else
            (let first = strings_Index filename ''_'' in
             if first = -1 then Inl FilenameNoUnderscores
             else
               (let second0 = strings_Index (slice_from filename (first + 1)) ''_'' in
                if second0 = -1 then Inl FilenameNotEnoughUnderscores
                else
                  (let second = second0 + (first + 1);
                       third0 = strings_Index (slice_from filename (second + 1)) ''_''
                   in
                   if third0 = -1 then Inl FilenameNotEnoughUnderscores
                   else
                     (let third = third0 + (second + 1) in
                      if third \<le> first + 1 then Inl InvalidUnderscorePositions
                      else Inr (slice filename (first + 1) third)))))))"

section \<open>JSON documents and the decoder\<close>

text \<open>
  The input of the walker is the token stream of a \<open>json.Decoder\<close>. The model takes the
  document the stream spells: a well-formed JSON text, with the members of an
  object in the order of the text and repeated keys kept. \<open>dec.Token\<close> on the opening of
  a value, the loop \<open>for dec.More()\<close> over the members or elements, and \<open>dec.Decode\<close>
  of one whole value become a case distinction on the value, a recursion over the list,
  and a decoding function of the value. Text that is not valid JSON is outside the model.
\<close>

datatype json =
    JNull
  | JBool bool
  | JNumber string
  | JString string
  | JArray "json list"
  | JObject "(string \<times> json) list"

text \<open>
  \<open>encoding/json\<close> finds the field of a key by the exact name first and by case folding
  otherwise; the field names below are distinct under folding. The folding modelled here
  is that of ASCII letters; the library also folds U+017F to \<open>s\<close> and U+212A to \<open>k\<close>, so
  the two agree on ASCII keys. Statements that depend on which elements decode are made
  over any decoding function, in the section on the library as a parameter.
\<close>

definition fieldMatches :: "string \<Rightarrow> string \<Rightarrow> bool" where
  "fieldMatches tag key = (key = tag \<or> strings_ToLower key = strings_ToLower tag)"

text \<open>
  Decoding the members of an object into one string field: a string is stored, \<open>null\<close>
  leaves the field as it is, and any other value is a type error, which the decoder
  remembers while it goes on. The result is whether no error occurred, and the field.
\<close>

fun decodeStringField :: "string \<Rightarrow> (string \<times> json) list \<Rightarrow> string \<Rightarrow> bool \<times> string" where
  "decodeStringField tag [] cur = (True, cur)"
| "decodeStringField tag ((k, v) # kvs) cur =
     (if fieldMatches tag k then
        (case v of
           JString s \<Rightarrow> decodeStringField tag kvs s
         | JNull \<Rightarrow> decodeStringField tag kvs cur
         | _ \<Rightarrow> (False, snd (decodeStringField tag kvs cur)))
      else decodeStringField tag kvs cur)"

record reportingPlan =
  plan_Type :: string
  plan_Id :: string

record inNetworkFile =
  Description :: string
  Location :: string

text \<open>\<open>dec.Decode(&reportingPlan)\<close>; \<open>null\<close> decodes to the zero struct.\<close>

definition decode_reportingPlan :: "json \<Rightarrow> error + reportingPlan" where
  "decode_reportingPlan v =
     (case v of
        JNull \<Rightarrow> Inr \<lparr>plan_Type = [], plan_Id = []\<rparr>
      | JObject kvs \<Rightarrow>
          (let (ok1, t) = decodeStringField ''plan_id_type'' kvs [];
               (ok2, i) = decodeStringField ''plan_id'' kvs []
           in if ok1 \<and> ok2 then Inr \<lparr>plan_Type = t, plan_Id = i\<rparr> else Inl DecodeReportingPlan)
      | _ \<Rightarrow> Inl DecodeReportingPlan)"

text \<open>\<open>dec.Decode(&inNetworkFile)\<close> for the struct with both strings.\<close>

definition decode_inNetworkFile :: "json \<Rightarrow> error + inNetworkFile" where
  "decode_inNetworkFile v =
     (case v of
        JNull \<Rightarrow> Inr \<lparr>Description = [], Location = []\<rparr>
      | JObject kvs \<Rightarrow>
          (let (ok1, d) = decodeStringField ''description'' kvs [];
               (ok2, l) = decodeStringField ''location'' kvs []
           in if ok1 \<and> ok2 then Inr \<lparr>Description = d, Location = l\<rparr> else Inl DecodePlan)
      | _ \<Rightarrow> Inl DecodePlan)"

text \<open>The struct of \<open>getUniquePlans\<close> has the description only.\<close>

definition decode_description :: "json \<Rightarrow> error + string" where
  "decode_description v =
     (case v of
        JNull \<Rightarrow> Inr []
      | JObject kvs \<Rightarrow>
          (let (ok1, d) = decodeStringField ''description'' kvs []
           in if ok1 then Inr d else Inl DecodePlan)
      | _ \<Rightarrow> Inl DecodePlan)"

section \<open>Heuristic tables\<close>

text \<open>
  A \<open>map[string]struct{}\<close> is a set of keys, kept here as the list of its keys without
  repetition, in the order of insertion. Go iterates over a map in no specified order,
  so only the set of such a list is meaningful.
\<close>

definition map_insert :: "string \<Rightarrow> string list \<Rightarrow> string list" where
  "map_insert k m = (if k \<in> set m then m else m @ [k])"

definition ppoPlansMap :: "string list" where
  "ppoPlansMap =
    [''regence bs idaho : par providers'',
     ''bcbs kansas city : preferred care blue'',
     ''bs california : blue high performance'',
     ''bcbs tennessee, inc. : network c'',
     ''hcsc: bcbs texas : blue high performance'',
     ''arkansas bcbs : true blue ppo'',
     ''bcbs massachusetts : blue care elect'',
     ''carefirst bcbs : par network'',
     ''bcbs michigan : par providers'',
     ''bcbs south carolina : blue high performance'',
     ''bcbs louisiana : blue hpn'',
     ''premera bc : heritage prime'',
     ''highmark bs : highmark bs network'',
     ''bcbs north carolina : comprehensive major medical network (cmmn)'',
     ''regence blueshield : regence-67e0'',
     ''florida blue: bcbs florida : pps'',
     ''hcsc: bcbs new mexico : new mexico bluecard ppo'',
     ''bcbs alabama : blue high performance'',
     ''bcbs michigan : blue high performance'',
     ''bcbs south carolina : preferred blue'',
     ''highmark bs northeastern ny : highmark blue shield of northeastern new york - ppo'',
     ''highmark bcbs delaware : blue choice'',
     ''premera bc : prudentbuyer washington'',
     ''hcsc: bcbs illinois : blue high performance'',
     ''highmark bcbs : highmark bcbs network'',
     ''bcbs kansas : blue choice'',
     ''independence bc : par network'',
     ''hcsc: bcbs montana : par network'',
     ''premera bc : heritage signature'',
     ''bcbs massachusetts : blue high performance'',
     ''carefirst bcbs : blue precision'',
     ''bcbs mississippi : par network'',
     ''florida blue: bcbs florida : networkblue'',
     ''independence bc : personal choice'',
     ''regence blueshield : bluecard ppo'',
     ''bcbs arizona : blue preferred'',
     ''bcbs alabama : par network'',
     ''bcbs vermont : new england health plans (nehp)'',
     ''bcbs hawaii : preferred provider network'',
     ''florida blue: triple-s (pr) : bluecard ppo'',
     ''bcbs kansas : traditional providers'',
     ''horizon bcbs new jersey, inc. : select hospitals/par physicians'',
     ''bcbs north carolina : blue high performance'',
     ''hcsc: bcbs illinois : participating provider option'',
     ''hcsc: bcbs montana : ppo network'',
     ''highmark bs northeastern ny : highmark blue shield of northeastern new york traditional'',
     ''independence bc : personal choice limited'',
     ''highmark bs : community blue premier'',
     ''bcbs kansas city : participating network'',
     ''premera bc : traditional'',
     ''regence bcbs utah : preferred blue option'',
     ''health service coalition of nevada (hsc) rates'',
     ''bcbs wyoming : wyoming total choice'',
     ''regence bs idaho : blue shield preferred providers'',
     ''regence bcbs oregon : oregon high performance'',
     ''capital bc : capital blue cross ppo'',
     ''bcbs wyoming : par network'',
     ''arkansas bcbs : ppp network'',
     ''excellus bcbs : blueppo'',
     ''bc idaho : participating provider network'',
     ''highmark bcbs western ny : highmark blue cross blue shield of western new york - hpn'',
     ''bcbs kansas city : blueselect plus'',
     ''hcsc: bcbs texas : participating providers'',
     ''bcbs north carolina : preferred provider network (ppn)'',
     ''highmark bcbs wv : west virginia par providers'',
     ''bs california : ppo network'',
     ''bcbs kansas city : blue high performance'',
     ''bcbs vermont : bcbsvt par providers'',
     ''carefirst bcbs : blueessential'',
     ''capital bc : blue high performance'',
     ''bcbs north carolina : blue value (lcst)'',
     ''bc idaho : preferred blue'',
     ''highmark bcbs wv : super blue plus'',
     ''premera bc : heritage'',
     ''bcbs tennessee, inc. : network p'',
     ''bcbs alabama : preferred care'',
     ''wellmark bcbs iowa : alliance select'',
     ''highmark bcbs western ny : highmark blue cross blue shield of western new york-traditional'',
     ''premera bc : blue high performance state-wide'',
     ''carefirst bcbs : alternate network'',
     ''bcbs wyoming : blue select'',
     ''bcbs arizona : alliance'',
     ''hcsc: bcbs illinois : blue choice options'',
     ''in-network negotiated rates files'',
     ''hcsc: bcbs oklahoma : bluechoice ppo'',
     ''hcsc: bcbs illinois : bcbs of illinois par providers'',
     ''bcbs north dakota : preferred blue ppo'',
     ''bcbs louisiana : preferred care'',
     ''hcsc: bcbs new mexico : new mexico par network'',
     ''florida blue: triple-s (pr) : participating providers'',
     ''regence blueshield : blue high performance'',
     ''capital bc : capital blue cross traditional'',
     ''florida blue: bcbs florida : ppc / ppo network'',
     ''bcbs tennessee, inc. : network s'',
     ''highmark bcbs : community blue'',
     ''bcbs michigan : trust'',
     ''dental vision'',
     ''hcsc: bcbs oklahoma : blue traditional'',
     ''bcbs hawaii : participating provider network'',
     ''bcbs massachusetts : par providers'',
     ''bcbs minnesota : high value'',
     ''highmark bs : pa national performance blue'',
     ''bcbs nebraska : blueprint health'',
     ''carefirst bcbs : select preferred provider'',
     ''highmark bcbs western ny : highmark bluecross blueshield of western new york-ppo'',
     ''bcbs nebraska : network blue'',
     ''bcbs minnesota : aware'',
     ''bcbs kansas city : preferred care ppo'',
     ''florida blue: triple-s (vi) : usvi-62a0'',
     ''highmark bcbs delaware : blue classic'',
     ''hcsc: bcbs oklahoma : blue preferred'']"

definition regionCodes :: "string list" where
  "regionCodes = [''301_71a0'', ''302_42b0'', ''254_39b0'', ''800_72a0'']"

text \<open>The local table that shadows \<open>regionCodes\<close> inside \<open>checkInNetworkFiles\<close>.\<close>

definition checkInNetworkFiles_regionCodes :: "string list" where
  "checkInNetworkFiles_regionCodes = [''301_71A0'', ''302_42B0'', ''254_39B0'', ''800_72A0'']"

section \<open>Program state and the classification service\<close>

record match =
  mDescription :: string
  mLocation :: string
  Eins :: "string list"
  AIMatch :: bool
  HeuristicMatch :: bool
  RegionCodeMatch :: bool

text \<open>
  What the program writes to standard output, line by line; the opening and closing
  brackets and the three timing lines of \<open>main\<close> are left out.
\<close>

datatype out_line =
    MatchLine match
  | StringLine string
  | AuditLine string
  | WarningLine
  | UsageLine

text \<open>
  The global variables of the program, its standard output, and the number of requests
  sent to the classification service so far.
\<close>

record state =
  isUniquePlansMode :: bool
  isAnalysisMode :: bool
  isHeuristicsMode :: bool
  uniquePpoPrices :: "string list"
  plansFound :: "string list"
  stdout :: "out_line list"
  llmCalls :: nat

definition init_state :: state where
  "init_state =
     \<lparr>isUniquePlansMode = False, isAnalysisMode = False, isHeuristicsMode = False,
      uniquePpoPrices = [], plansFound = [], stdout = [], llmCalls = 0\<rparr>"

datatype prompt = helloPrompt | isNewYorkPrompt | isPpoPrompt

text \<open>
  The external service \<open>llama.GenerateContent\<close>: the answer to the \<open>n\<close>-th request of the
  run, for a system prompt and a human text, is a content string or an error. The
  request number lets the service answer the same question differently each time. A
  response is taken to carry a first choice, whose content is the answer.
\<close>

type_synonym llm = "nat \<Rightarrow> prompt \<Rightarrow> string \<Rightarrow> error + string"

definition GenerateContent :: "llm \<Rightarrow> prompt \<Rightarrow> string \<Rightarrow> state \<Rightarrow> (error + string) \<times> state" where
  "GenerateContent llama p text st = (llama (llmCalls st) p text, st\<lparr>llmCalls := llmCalls st + 1\<rparr>)"

definition doLlmQuery :: "inNetworkFile \<Rightarrow> llm \<Rightarrow> prompt \<Rightarrow> state \<Rightarrow> (error + bool) \<times> state" where
  "doLlmQuery inNetworkFile llama p st =
     (case GenerateContent llama p (Description inNetworkFile) st of
        (Inl err, st') \<Rightarrow> (Inl err, st')
      | (Inr content, st') \<Rightarrow> (Inr (strings_ToLower content = ''true''), st'))"

definition printMatch :: "string \<Rightarrow> string \<Rightarrow> string list \<Rightarrow> bool \<Rightarrow> bool \<Rightarrow> bool \<Rightarrow> state \<Rightarrow> state" where
  "printMatch description location eins aiMatch heuristicMatch regionCodeMatch st =
     st\<lparr>stdout := stdout st @
          [MatchLine \<lparr>mDescription = description, mLocation = location, Eins = eins,
                      AIMatch = aiMatch, HeuristicMatch = heuristicMatch,
                      RegionCodeMatch = regionCodeMatch\<rparr>]\<rparr>"

section \<open>Classification pipeline\<close>

subsection \<open>\<open>getPpoPricesByHeuristics\<close>\<close>

text \<open>The body of the loop for one decoded file reference.\<close>

definition getPpoPricesByHeuristics_file :: "inNetworkFile \<Rightarrow> state \<Rightarrow> state" where
  "getPpoPricesByHeuristics_file inNetworkFile st =
     (let lowerDesc = strings_ToLower (Description inNetworkFile) in
      if lowerDesc \<notin> set ppoPlansMap then st
      else
        (let planMatch = True;
             regionCodeMatch =
               (case ExtractPlanCode (Location inNetworkFile) of
                  Inl err \<Rightarrow> False
                | Inr planCode \<Rightarrow> strings_ToLower planCode \<in> set regionCodes)
         in if planMatch \<and> regionCodeMatch
            then st\<lparr>uniquePpoPrices := map_insert (Location inNetworkFile) (uniquePpoPrices st)\<rparr>
            else st))"

fun getPpoPricesByHeuristics_loop :: "json list \<Rightarrow> state \<Rightarrow> error option \<times> state" where
  "getPpoPricesByHeuristics_loop [] st = (None, st)"
| "getPpoPricesByHeuristics_loop (v # vs) st =
     (case decode_inNetworkFile v of
        Inl err \<Rightarrow> (Some err, st)
      | Inr inNetworkFile \<Rightarrow>
          getPpoPricesByHeuristics_loop vs (getPpoPricesByHeuristics_file inNetworkFile st))"

definition getPpoPricesByHeuristics :: "json \<Rightarrow> state \<Rightarrow> error option \<times> state" where
  "getPpoPricesByHeuristics tok st =
     (case tok of
        JArray vs \<Rightarrow> getPpoPricesByHeuristics_loop vs st
      | _ \<Rightarrow> (Some InNetworkFilesNotArray, st))"

subsection \<open>\<open>getUniquePlans\<close>\<close>

text \<open>The parameters \<open>llama\<close> and \<open>eins\<close> of the source are not used by it and left out.\<close>

definition getUniquePlans_file :: "string \<Rightarrow> state \<Rightarrow> state" where
  "getUniquePlans_file description st =
     (let lowerDesc = strings_ToLower description in
      if lowerDesc = ''In-Network Negotiated Rates Files'' then st
      else st\<lparr>plansFound := map_insert lowerDesc (plansFound st)\<rparr>)"

fun getUniquePlans_loop :: "json list \<Rightarrow> state \<Rightarrow> error option \<times> state" where
  "getUniquePlans_loop [] st = (None, st)"
| "getUniquePlans_loop (v # vs) st =
     (case decode_description v of
        Inl err \<Rightarrow> (Some err, st)
      | Inr description \<Rightarrow> getUniquePlans_loop vs (getUniquePlans_file description st))"

definition getUniquePlans :: "json \<Rightarrow> state \<Rightarrow> error option \<times> state" where
  "getUniquePlans tok st =
     (case tok of
        JArray vs \<Rightarrow> getUniquePlans_loop vs st
      | _ \<Rightarrow> (Some InNetworkFilesNotArray, st))"

subsection \<open>\<open>checkInNetworkFiles\<close>\<close>

definition naiveMatch :: "string \<Rightarrow> bool" where
  "naiveMatch lowerDesc =
     ((strings_Contains lowerDesc ''ny'' \<or> strings_Contains lowerDesc ''new york'')
      \<and> (strings_Contains lowerDesc ''ppo'' \<or> strings_Contains lowerDesc ''preferred''))"

definition regionCodeMatch :: "string \<Rightarrow> bool" where
  "regionCodeMatch location =
     (case ExtractPlanCode location of
        Inl err \<Rightarrow> False
      | Inr planCode \<Rightarrow> strings_ToLower planCode \<in> set checkInNetworkFiles_regionCodes)"

text \<open>The two requests to the service: the second is sent only after a true first answer.\<close>

definition aiMatch :: "llm \<Rightarrow> inNetworkFile \<Rightarrow> state \<Rightarrow> bool \<times> state" where
  "aiMatch llama inNetworkFile st =
     (case doLlmQuery inNetworkFile llama isNewYorkPrompt st of
        (Inr True, st1) \<Rightarrow>
          (case doLlmQuery inNetworkFile llama isPpoPrompt st1 of
             (Inr True, st2) \<Rightarrow> (True, st2)
           | (_, st2) \<Rightarrow> (False, st2))
      | (_, st1) \<Rightarrow> (False, st1))"

text \<open>The body of the loop for one decoded file reference.\<close>

definition checkInNetworkFiles_file :: "llm \<Rightarrow> string list \<Rightarrow> inNetworkFile \<Rightarrow> state \<Rightarrow> state" where
  "checkInNetworkFiles_file llama eins inNetworkFile st =
     (let lowerDesc = strings_ToLower (Description inNetworkFile);
          naive = naiveMatch lowerDesc;
          region = regionCodeMatch (Location inNetworkFile);
          (ai, st') = aiMatch llama inNetworkFile st;
          planMatch = (naive \<or> region \<or> ai)
      in if planMatch
         then printMatch (Description inNetworkFile) (Location inNetworkFile) eins ai naive region st'
         else st')"

fun checkInNetworkFiles_loop :: "llm \<Rightarrow> string list \<Rightarrow> json list \<Rightarrow> state \<Rightarrow> error option \<times> state" where
  "checkInNetworkFiles_loop llama eins [] st = (None, st)"
| "checkInNetworkFiles_loop llama eins (v # vs) st =
     (case decode_inNetworkFile v of
        Inl err \<Rightarrow> (Some err, st)
      | Inr inNetworkFile \<Rightarrow>
          checkInNetworkFiles_loop llama eins vs (checkInNetworkFiles_file llama eins inNetworkFile st))"

definition checkInNetworkFiles :: "llm \<Rightarrow> string list \<Rightarrow> json \<Rightarrow> state \<Rightarrow> error option \<times> state" where
  "checkInNetworkFiles llama eins tok st =
     (case tok of
        JArray vs \<Rightarrow> checkInNetworkFiles_loop llama eins vs st
      | _ \<Rightarrow> (Some InNetworkFilesNotArray, st))"

section \<open>Record correlator and document walker\<close>

fun processReportingPlan_loop :: "json list \<Rightarrow> string list \<Rightarrow> error + string list" where
  "processReportingPlan_loop [] eins = Inr eins"
| "processReportingPlan_loop (v # vs) eins =
     (case decode_reportingPlan v of
        Inl err \<Rightarrow> Inl err
      | Inr reportingPlan \<Rightarrow>
          processReportingPlan_loop vs
            (if strings_ToLower (plan_Type reportingPlan) = ''ein''
             then map_insert (plan_Id reportingPlan) eins else eins))"

definition processReportingPlan :: "json \<Rightarrow> error + string list" where
  "processReportingPlan tok =
     (case tok of
        JArray vs \<Rightarrow> processReportingPlan_loop vs []
      | _ \<Rightarrow> Inl ReportingPlansNotArray)"

text \<open>
  The loop of \<open>scanReportingRecord\<close> over the members of a record, with the local \<open>eins\<close>.
  The last branch is the \<open>default\<close> case, which decodes the value and drops it; a
  \<open>reporting_plans\<close> member falls through to it outside the analysis mode.
\<close>

fun scanReportingRecord_loop :: "llm \<Rightarrow> string list \<Rightarrow> (string \<times> json) list \<Rightarrow> state \<Rightarrow> error option \<times> state" where
  "scanReportingRecord_loop llama eins [] st = (None, st)"
| "scanReportingRecord_loop llama eins ((key, v) # rest) st =
     (if key = ''in_network_files'' then
        (case (if isUniquePlansMode st then getUniquePlans v st
               else if isAnalysisMode st then checkInNetworkFiles llama eins v st
               else if isHeuristicsMode st then getPpoPricesByHeuristics v st
               else (Some UnknownMode, st)) of
           (Some err, st') \<Rightarrow> (Some err, st')
         | (None, st') \<Rightarrow> scanReportingRecord_loop llama eins rest st')
      else if key = ''reporting_plans'' \<and> isAnalysisMode st then
        (case processReportingPlan v of
           Inl err \<Rightarrow> (Some err, st)
         | Inr eins_2 \<Rightarrow> scanReportingRecord_loop llama eins_2 rest st)
      else scanReportingRecord_loop llama eins rest st)"

definition scanReportingRecord :: "llm \<Rightarrow> (string \<times> json) list \<Rightarrow> state \<Rightarrow> error option \<times> state" where
  "scanReportingRecord llama members st = scanReportingRecord_loop llama [] members st"

fun parseReportingStructure_loop :: "llm \<Rightarrow> json list \<Rightarrow> state \<Rightarrow> error option \<times> state" where
  "parseReportingStructure_loop llama [] st = (None, st)"
| "parseReportingStructure_loop llama (tok # toks) st =
     (case tok of
        JObject members \<Rightarrow>
          (case scanReportingRecord llama members st of
             (Some err, st') \<Rightarrow> (Some err, st')
           | (None, st') \<Rightarrow> parseReportingStructure_loop llama toks st')
      | _ \<Rightarrow> (Some ExpectedObjectInReportingStructure, st))"

definition parseReportingStructure :: "llm \<Rightarrow> json \<Rightarrow> state \<Rightarrow> error option \<times> state" where
  "parseReportingStructure llama tok st =
     (case tok of
        JArray toks \<Rightarrow> parseReportingStructure_loop llama toks st
      | _ \<Rightarrow> (Some ReportingStructureNotArray, st))"

fun parseIndexFile_loop :: "llm \<Rightarrow> (string \<times> json) list \<Rightarrow> state \<Rightarrow> error option \<times> state" where
  "parseIndexFile_loop llama [] st = (None, st)"
| "parseIndexFile_loop llama ((key, v) # rest) st =
     (if key \<noteq> ''reporting_structure'' then parseIndexFile_loop llama rest st
      else
        (case parseReportingStructure llama v st of
           (Some err, st') \<Rightarrow> (Some err, st')
         | (None, st') \<Rightarrow> parseIndexFile_loop llama rest st'))"

definition parseIndexFile :: "llm \<Rightarrow> json \<Rightarrow> state \<Rightarrow> error option \<times> state" where
  "parseIndexFile llama tok st =
     (case tok of
        JObject members \<Rightarrow> parseIndexFile_loop llama members st
      | _ \<Rightarrow> (Some ExpectedRootObject, st))"

section \<open>The run\<close>

definition printUniquePlans :: "state \<Rightarrow> state" where
  "printUniquePlans st = st\<lparr>stdout := stdout st @ map StringLine (plansFound st)\<rparr>"

definition printPpoPrices :: "state \<Rightarrow> state" where
  "printPpoPrices st = st\<lparr>stdout := stdout st @ map StringLine (uniquePpoPrices st)\<rparr>"

definition printUsage :: "state \<Rightarrow> error option \<times> state" where
  "printUsage st = (Some UsageError, st\<lparr>stdout := stdout st @ [UsageLine]\<rparr>)"

text \<open>
  \<open>run\<close>, for the command line \<open>args\<close>, the outcome of \<open>ollama.New\<close>, the service, and the
  outcome of opening the file and its gzip stream: an error, or the document it holds.
\<close>

definition run :: "string list \<Rightarrow> error option \<Rightarrow> llm \<Rightarrow> error + json \<Rightarrow> state \<Rightarrow> error option \<times> state" where
  "run args ollama_New llama file st0 =
     (if length args < 2 then printUsage st0
      else if length args \<ge> 3 \<and> args ! 2 \<noteq> ''-uniquePlans'' \<and> args ! 2 \<noteq> ''-analysis''
              \<and> args ! 2 \<noteq> ''-heuristics'' then printUsage st0
      else
        (let st1 =
               (if length args \<ge> 3 then
                  (if args ! 2 = ''-uniquePlans'' then st0\<lparr>isUniquePlansMode := True\<rparr>
                   else if args ! 2 = ''-analysis'' then st0\<lparr>isAnalysisMode := True\<rparr>
                   else st0\<lparr>isHeuristicsMode := True\<rparr>)
                else st0\<lparr>isHeuristicsMode := True\<rparr>)
         in
         case ollama_New of
           Some err \<Rightarrow> (Some OpenOllamaFailed, st1)
         | None \<Rightarrow>
            (let (res, st2) = GenerateContent llama helloPrompt [] st1;
                 st3 =
                   (case res of
                      Inl err \<Rightarrow>
                        if isAnalysisMode st2 then st2\<lparr>stdout := stdout st2 @ [WarningLine]\<rparr> else st2
                    | Inr msg \<Rightarrow> st2\<lparr>stdout := stdout st2 @ [AuditLine msg]\<rparr>)
             in
             case file of
               Inl err \<Rightarrow> (Some err, st3)
             | Inr doc \<Rightarrow>
                (case parseIndexFile llama doc st3 of
                   (Some err, st4) \<Rightarrow> (Some err, st4)
                 | (None, st4) \<Rightarrow>
                    (let st5 = (if isUniquePlansMode st4 then printUniquePlans st4 else st4);
                         st6 = (if isHeuristicsMode st5 then printPpoPrices st5 else st5)
                     in (None, st6))))))"

text \<open>\<open>main\<close>: the exit code and the lines written.\<close>

definition main :: "string list \<Rightarrow> error option \<Rightarrow> llm \<Rightarrow> error + json \<Rightarrow> int \<times> out_line list" where
  "main args ollama_New llama file =
     (case run args ollama_New llama file init_state of
        (Some err, st) \<Rightarrow> (1, stdout st)
      | (None, st) \<Rightarrow> (0, stdout st))"

section \<open>The library as a parameter\<close>

text \<open>
  The two functions that fill an accumulator from decoded elements, once more, with the
  library calls they make as parameters: \<open>lower\<close> for \<open>strings.ToLower\<close>, \<open>decode\<close> for
  \<open>dec.Decode\<close> into the struct of the loop, and \<open>parse\<close> for \<open>url.Parse\<close>. What is proved
  of them holds for the library as it is, on every input and for every version of it.
  The functions above are their instances at \<open>strings_ToLower\<close>, \<open>decode_inNetworkFile\<close>
  or \<open>decode_reportingPlan\<close>, and \<open>url_Parse\<close>.
\<close>

definition ExtractPlanCode_with :: "(string \<Rightarrow> url_error + URL) \<Rightarrow> string \<Rightarrow> error + string" where
  "ExtractPlanCode_with parse rawURL =
     (case parse rawURL of
        Inl err \<Rightarrow> Inl (UrlError err)
      | Inr u \<Rightarrow>
         (let filename = path_Base (Path u) in
          if filename = [] \<or> filename = ''/'' then Inl NoFilenameInUrlPath
          else
            (let first = strings_Index filename ''_'' in
             if first = -1 then Inl FilenameNoUnderscores
             else
               (let second0 = strings_Index (slice_from filename (first + 1)) ''_'' in
                if second0 = -1 then Inl FilenameNotEnoughUnderscores
                else
                  (let second = second0 + (first + 1);
                       third0 = strings_Index (slice_from filename (second + 1)) ''_''
                   in
                   if third0 = -1 then Inl FilenameNotEnoughUnderscores
                   else
                     (let third = third0 + (second + 1) in
                      if third \<le> first + 1 then Inl InvalidUnderscorePositions
                      else Inr (slice filename (first + 1) third)))))))"

definition getPpoPricesByHeuristics_file_with ::
    "(string \<Rightarrow> string) \<Rightarrow> (string \<Rightarrow> url_error + URL) \<Rightarrow> inNetworkFile \<Rightarrow> state \<Rightarrow> state" where
  "getPpoPricesByHeuristics_file_with lower parse inNetworkFile st =
     (let lowerDesc = lower (Description inNetworkFile) in
      if lowerDesc \<notin> set ppoPlansMap then st
      else
        (let planMatch = True;
             regionCodeMatch =
               (case ExtractPlanCode_with parse (Location inNetworkFile) of
                  Inl err \<Rightarrow> False
                | Inr planCode \<Rightarrow> lower planCode \<in> set regionCodes)
         in if planMatch \<and> regionCodeMatch
            then st\<lparr>uniquePpoPrices := map_insert (Location inNetworkFile) (uniquePpoPrices st)\<rparr>
            else st))"

fun getPpoPricesByHeuristics_loop_with ::
    "(string \<Rightarrow> string) \<Rightarrow> (json \<Rightarrow> error + inNetworkFile) \<Rightarrow> (string \<Rightarrow> url_error + URL)
     \<Rightarrow> json list \<Rightarrow> state \<Rightarrow> error option \<times> state" where
  "getPpoPricesByHeuristics_loop_with lower decode parse [] st = (None, st)"
| "getPpoPricesByHeuristics_loop_with lower decode parse (v # vs) st =
     (case decode v of
        Inl err \<Rightarrow> (Some DecodePlan, st)
      | Inr inNetworkFile \<Rightarrow>
          getPpoPricesByHeuristics_loop_with lower decode parse vs
            (getPpoPricesByHeuristics_file_with lower parse inNetworkFile st))"

definition getPpoPricesByHeuristics_with ::
    "(string \<Rightarrow> string) \<Rightarrow> (json \<Rightarrow> error + inNetworkFile) \<Rightarrow> (string \<Rightarrow> url_error + URL)
     \<Rightarrow> json \<Rightarrow> state \<Rightarrow> error option \<times> state" where
  "getPpoPricesByHeuristics_with lower decode parse tok st =
     (case tok of
        JArray vs \<Rightarrow> getPpoPricesByHeuristics_loop_with lower decode parse vs st
      | _ \<Rightarrow> (Some InNetworkFilesNotArray, st))"

text \<open>
  The file references the loop gets to see: the elements decoded before the first one
  that does not decode, where the loop returns its error.
\<close>

fun decoded_files_with :: "(json \<Rightarrow> error + inNetworkFile) \<Rightarrow> json list \<Rightarrow> inNetworkFile list" where
  "decoded_files_with decode [] = []"
| "decoded_files_with decode (v # vs) =
     (case decode v of Inl err \<Rightarrow> [] | Inr f \<Rightarrow> f # decoded_files_with decode vs)"

fun processReportingPlan_loop_with ::
    "(string \<Rightarrow> string) \<Rightarrow> (json \<Rightarrow> error + reportingPlan) \<Rightarrow> json list \<Rightarrow> string list
     \<Rightarrow> error + string list" where
  "processReportingPlan_loop_with lower decode [] eins = Inr eins"
| "processReportingPlan_loop_with lower decode (v # vs) eins =
     (case decode v of
        Inl err \<Rightarrow> Inl DecodeReportingPlan
      | Inr reportingPlan \<Rightarrow>
          processReportingPlan_loop_with lower decode vs
            (if lower (plan_Type reportingPlan) = ''ein''
             then map_insert (plan_Id reportingPlan) eins else eins))"

definition processReportingPlan_with ::
    "(string \<Rightarrow> string) \<Rightarrow> (json \<Rightarrow> error + reportingPlan) \<Rightarrow> json \<Rightarrow> error + string list" where
  "processReportingPlan_with lower decode tok =
     (case tok of
        JArray vs \<Rightarrow> processReportingPlan_loop_with lower decode vs []
      | _ \<Rightarrow> Inl ReportingPlansNotArray)"

section \<open>Notions used in the statements\<close>

text \<open>The shape of a JSON value, and the elements of an array.\<close>

fun isObject :: "json \<Rightarrow> bool" where
  "isObject (JObject members) = True"
| "isObject _ = False"

fun isArray :: "json \<Rightarrow> bool" where
  "isArray (JArray toks) = True"
| "isArray _ = False"

fun elements :: "json \<Rightarrow> json list" where
  "elements (JArray toks) = toks"
| "elements _ = []"

text \<open>The lines written between a state and a later one.\<close>

definition emitted :: "state \<Rightarrow> state \<Rightarrow> out_line list" where
  "emitted st st' = drop (length (stdout st)) (stdout st')"

text \<open>Two states with the same mode flags and accumulators.\<close>

definition same_globals :: "state \<Rightarrow> state \<Rightarrow> bool" where
  "same_globals st st' =
     (isUniquePlansMode st' = isUniquePlansMode st \<and> isAnalysisMode st' = isAnalysisMode st
      \<and> isHeuristicsMode st' = isHeuristicsMode st \<and> uniquePpoPrices st' = uniquePpoPrices st
      \<and> plansFound st' = plansFound st)"

text \<open>
  What is left of the output when the service answers nothing: the match lines that the
  naive or the region-code signal drives, with their \<open>aiMatch\<close> field false.
\<close>

fun degrade_line :: "out_line \<Rightarrow> out_line list" where
  "degrade_line (MatchLine m) =
     (if HeuristicMatch m \<or> RegionCodeMatch m then [MatchLine (m\<lparr>AIMatch := False\<rparr>)] else [])"
| "degrade_line l = [l]"

definition degrade :: "out_line list \<Rightarrow> out_line list" where
  "degrade ls = concat (map degrade_line ls)"

text \<open>A service of which every request returns an error.\<close>

definition unavailable :: "llm \<Rightarrow> bool" where
  "unavailable llama = (\<forall>n p t. \<exists>err. llama n p t = Inl err)"

text \<open>The line \<open>checkInNetworkFiles\<close> writes for a file reference, given the service's verdict.\<close>

definition match_lines :: "string list \<Rightarrow> inNetworkFile \<Rightarrow> bool \<Rightarrow> out_line list" where
  "match_lines eins f ai =
     (if naiveMatch (strings_ToLower (Description f)) \<or> regionCodeMatch (Location f) \<or> ai
      then [MatchLine \<lparr>mDescription = Description f, mLocation = Location f, Eins = eins,
                        AIMatch = ai, HeuristicMatch = naiveMatch (strings_ToLower (Description f)),
                        RegionCodeMatch = regionCodeMatch (Location f)\<rparr>]
      else [])"

text \<open>
  The final states of a run with an unavailable service and of a run with another
  service, started in \<open>st\<close> and \<open>st2\<close>: the globals agree and the output of the first is the
  degraded output of the second.
\<close>

definition degraded :: "state \<Rightarrow> state \<Rightarrow> state \<Rightarrow> state \<Rightarrow> bool" where
  "degraded st st2 st' st2' =
     (same_globals st' st2'
      \<and> (\<exists>new. stdout st2' = stdout st2 @ new \<and> stdout st' = stdout st @ degrade new))"

text \<open>The dispatch of \<open>scanReportingRecord\<close> on the mode, for an \<open>in_network_files\<close> member.\<close>

definition inNetworkFiles_dispatch :: "llm \<Rightarrow> string list \<Rightarrow> json \<Rightarrow> state \<Rightarrow> error option \<times> state" where
  "inNetworkFiles_dispatch llama eins v st =
     (if isUniquePlansMode st then getUniquePlans v st
      else if isAnalysisMode st then checkInNetworkFiles llama eins v st
      else if isHeuristicsMode st then getPpoPricesByHeuristics v st
      else (Some UnknownMode, st))"

text \<open>Lines that are all match results carrying the identifiers \<open>eins\<close>.\<close>

definition matches_with :: "string list \<Rightarrow> out_line list \<Rightarrow> bool" where
  "matches_with eins new = (\<forall>l \<in> set new. \<exists>m. l = MatchLine m \<and> Eins m = eins)"

text \<open>A state in which no accumulated string has been printed.\<close>

definition no_strings :: "state \<Rightarrow> bool" where
  "no_strings st = (\<forall>s. StringLine s \<notin> set (stdout st))"

text \<open>
  The malformed top-level shapes: the root is not an object, or a \<open>reporting_structure\<close>
  member of the root is not an array or has an element that is not an object.
\<close>

definition reporting_structure_values :: "json \<Rightarrow> json list" where
  "reporting_structure_values doc =
     (case doc of
        JObject members \<Rightarrow> map snd (filter (\<lambda>kv. fst kv = ''reporting_structure'') members)
      | _ \<Rightarrow> [])"

definition malformed_shape :: "json \<Rightarrow> bool" where
  "malformed_shape doc =
     (\<not> isObject doc
      \<or> (\<exists>v \<in> set (reporting_structure_values doc).
            \<not> isArray v \<or> (\<exists>tok \<in> set (elements v). \<not> isObject tok)))"

section \<open>Properties of the string functions\<close>

lemma index_from_single:
  "index_from [c] s i =
     (if c \<in> set s then i + int (length (takeWhile (\<lambda>x. x \<noteq> c) s)) else -1)"
  by (induction s arbitrary: i) (auto simp: strings_HasPrefix_def)

lemma strings_Index_single:
  "strings_Index s [c] =
     (if c \<in> set s then int (length (takeWhile (\<lambda>x. x \<noteq> c) s)) else -1)"
  by (simp add: strings_Index_def index_from_single)

lemma strings_Index_single_ge: "strings_Index s [c] \<noteq> -1 \<Longrightarrow> 0 \<le> strings_Index s [c]"
  by (simp add: strings_Index_single split: if_splits)

lemma strings_Count_absent: "strings_Count s c = 0 \<longleftrightarrow> c \<notin> set s"
  by (auto simp: strings_Count_def filter_empty_conv)

lemma strings_Count_after_index:
  assumes "c \<in> set s"
  shows "strings_Count s c = Suc (strings_Count (slice_from s (strings_Index s [c] + 1)) c)"
proof -
  let ?P = "\<lambda>x. x \<noteq> c"
  from assms have ne: "dropWhile ?P s \<noteq> []" by simp
  then have hd: "hd (dropWhile ?P s) = c" using hd_dropWhile [of ?P s] by simp
  have "s = takeWhile ?P s @ dropWhile ?P s" by simp
  also have "dropWhile ?P s = c # tl (dropWhile ?P s)" using ne hd by (cases "dropWhile ?P s") auto
  finally have split: "s = takeWhile ?P s @ c # tl (dropWhile ?P s)" .
  have none: "filter (\<lambda>x. x = c) (takeWhile ?P s) = []"
    by (auto simp: filter_empty_conv dest: set_takeWhileD)
  have "slice_from s (strings_Index s [c] + 1) = drop (Suc (length (takeWhile ?P s))) s"
    using assms by (simp add: slice_from_def strings_Index_single nat_add_distrib)
  also have "\<dots> = tl (dropWhile ?P s)"
    by (simp add: drop_Suc dropWhile_eq_drop tl_drop)
  finally have sl: "slice_from s (strings_Index s [c] + 1) = tl (dropWhile ?P s)" .
  have "strings_Count s c = length (filter (\<lambda>x. x = c) (takeWhile ?P s @ c # tl (dropWhile ?P s)))"
    unfolding strings_Count_def using split by simp
  then show ?thesis by (simp add: none sl strings_Count_def)
qed

lemma slice_from_slice_from:
  "0 \<le> i \<Longrightarrow> 0 \<le> j \<Longrightarrow> slice_from (slice_from s i) j = slice_from s (j + i)"
  by (simp add: slice_from_def nat_add_distrib add.commute)

lemma third_underscore_position:
  fixes first second0 second third0 third :: int
  assumes "first = strings_Index filename ''_''" "first \<noteq> -1"
    and "second0 = strings_Index (slice_from filename (first + 1)) ''_''" "second0 \<noteq> -1"
    and "second = second0 + (first + 1)"
    and "third0 = strings_Index (slice_from filename (second + 1)) ''_''" "third0 \<noteq> -1"
    and "third = third0 + (second + 1)"
  shows "first + 2 \<le> third"
proof -
  have "0 \<le> first" "0 \<le> second0" "0 \<le> third0"
    using assms strings_Index_single_ge by simp_all
  then show ?thesis using assms(5,8) by simp
qed

section \<open>Plan code extraction: the claims\<close>

text \<open>
  Claim C3, as amended. The final path segment of
  \<open>https://host/path/FILE_AB12CD_2024.json\<close> has two underscores only, so the search
  for the third one fails and \<open>ExtractPlanCode\<close> returns the error "filename does not
  contain enough underscores". A plan code is the text strictly between the first and
  the third underscore: \<open>https://host/path/FILE_AB12_CD_2024.json\<close> gives \<open>AB12_CD\<close>.
\<close>

theorem ExtractPlanCode_example:
  "ExtractPlanCode ''https://host/path/FILE_AB12CD_2024.json'' = Inl FilenameNotEnoughUnderscores
   \<and> ExtractPlanCode ''https://host/path/FILE_AB12_CD_2024.json'' = Inr ''AB12_CD''"
  by code_simp

text \<open>
  Claim C3 as stated fails: the result for \<open>https://host/path/FILE_AB12CD_2024.json\<close>
  is not the plan code \<open>AB12CD\<close>.
\<close>

theorem ExtractPlanCode_example_counterexample:
  "ExtractPlanCode ''https://host/path/FILE_AB12CD_2024.json'' \<noteq> Inr ''AB12CD''"
  by code_simp

text \<open>
  Claim C7, as amended. For a URL that parses and whose final path segment has fewer
  than three underscores, \<open>ExtractPlanCode\<close> returns no token: the error is "no filename"
  when the segment is the root marker \<open>/\<close> (the path has slashes only), "does not contain
  underscores" when the segment has none, and "not enough underscores" when it has one
  or two.
\<close>

theorem ExtractPlanCode_fewer_than_three_underscores:
  assumes "url_Parse rawURL = Inr u"
    and "strings_Count (path_Base (Path u)) CHR ''_'' < 3"
  shows "ExtractPlanCode rawURL =
           (if path_Base (Path u) = [] \<or> path_Base (Path u) = ''/'' then Inl NoFilenameInUrlPath
            else if strings_Count (path_Base (Path u)) CHR ''_'' = 0 then Inl FilenameNoUnderscores
            else Inl FilenameNotEnoughUnderscores)"
proof -
  define filename where "filename = path_Base (Path u)"
  define first where "first = strings_Index filename ''_''"
  define rest1 where "rest1 = slice_from filename (first + 1)"
  define second0 where "second0 = strings_Index rest1 ''_''"
  define rest2 where "rest2 = slice_from filename (second0 + (first + 1) + 1)"
  have E: "ExtractPlanCode rawURL =
          (if filename = [] \<or> filename = ''/'' then Inl NoFilenameInUrlPath
           else if first = -1 then Inl FilenameNoUnderscores
           else if second0 = -1 then Inl FilenameNotEnoughUnderscores
           else if strings_Index rest2 ''_'' = -1 then Inl FilenameNotEnoughUnderscores
           else if strings_Index rest2 ''_'' + (second0 + (first + 1) + 1) \<le> first + 1
             then Inl InvalidUnderscorePositions
           else Inr (slice filename (first + 1) (strings_Index rest2 ''_'' + (second0 + (first + 1) + 1))))"
    using assms(1)
    by (simp add: ExtractPlanCode_def Let_def filename_def first_def rest1_def second0_def rest2_def)
  have lt: "strings_Count filename CHR ''_'' < 3" using assms(2) by (simp add: filename_def)
  show ?thesis
  proof (cases "CHR ''_'' \<in> set filename")
    case False
    then have "first = -1" "strings_Count filename CHR ''_'' = 0"
      by (simp_all add: first_def strings_Index_single strings_Count_absent)
    then show ?thesis using E by (simp add: filename_def)
  next
    case in1: True
    then have f0: "first \<noteq> -1" "0 \<le> first" and c0: "strings_Count filename CHR ''_'' \<noteq> 0"
      by (simp_all add: first_def strings_Index_single strings_Count_absent)
    have c1: "strings_Count filename CHR ''_'' = Suc (strings_Count rest1 CHR ''_'')"
      using strings_Count_after_index [OF in1] by (simp add: rest1_def first_def)
    show ?thesis
    proof (cases "CHR ''_'' \<in> set rest1")
      case False
      then have "second0 = -1" by (simp add: second0_def strings_Index_single)
      then show ?thesis using E f0 c0 by (simp add: filename_def)
    next
      case in2: True
      then have s0: "second0 \<noteq> -1" "0 \<le> second0"
        by (simp_all add: second0_def strings_Index_single)
      have "rest2 = slice_from rest1 (second0 + 1)"
        using f0 s0 by (simp add: rest2_def rest1_def slice_from_slice_from algebra_simps)
      then have c2: "strings_Count rest1 CHR ''_'' = Suc (strings_Count rest2 CHR ''_'')"
        using strings_Count_after_index [OF in2] by (simp add: second0_def)
      from lt c1 c2 have "strings_Count rest2 CHR ''_'' = 0" by simp
      then have "strings_Index rest2 ''_'' = -1"
        by (simp add: strings_Count_absent strings_Index_single)
      then show ?thesis using E f0 s0 c0 by (simp add: filename_def)
    qed
  qed
qed

theorem ExtractPlanCode_fewer_than_three_underscores_witness:
  "url_Parse ''https://host/path/noseparators.json'' =
     Inr \<lparr>Scheme = ''https'', Opaque = [], Host = ''host'', Path = ''/path/noseparators.json'',
          RawQuery = [], Fragment = []\<rparr>
   \<and> strings_Count (path_Base ''/path/noseparators.json'') CHR ''_'' < 3
   \<and> ExtractPlanCode ''https://host/path/noseparators.json'' = Inl FilenameNoUnderscores"
proof -
  let ?u = "\<lparr>Scheme = ''https'', Opaque = [], Host = ''host'', Path = ''/path/noseparators.json'',
             RawQuery = [], Fragment = []\<rparr>"
  have p: "url_Parse ''https://host/path/noseparators.json'' = Inr ?u"
    by code_simp
  have b: "path_Base ''/path/noseparators.json'' = ''noseparators.json''"
    by code_simp
  have c: "strings_Count ''noseparators.json'' CHR ''_'' = 0"
    by code_simp
  have h: "strings_Count (path_Base (Path ?u)) CHR ''_'' < 3"
    by (simp add: b c)
  from ExtractPlanCode_fewer_than_three_underscores [OF p h] p b c show ?thesis
    by simp
qed

text \<open>
  Claim C7 as stated fails at \<open>https://host/\<close>: the URL parses, its final path segment
  \<open>/\<close> has no underscore, and the error is "no filename found in URL path", not one of
  the two errors about underscores.
\<close>

theorem ExtractPlanCode_fewer_than_three_underscores_counterexample:
  "url_Parse ''https://host/'' =
     Inr \<lparr>Scheme = ''https'', Opaque = [], Host = ''host'', Path = ''/'',
          RawQuery = [], Fragment = []\<rparr>
   \<and> strings_Count (path_Base ''/'') CHR ''_'' < 3
   \<and> ExtractPlanCode ''https://host/'' = Inl NoFilenameInUrlPath
   \<and> ExtractPlanCode ''https://host/'' \<noteq> Inl FilenameNoUnderscores
   \<and> ExtractPlanCode ''https://host/'' \<noteq> Inl FilenameNotEnoughUnderscores"
  by code_simp

text \<open>
  Claim C10. When the three searches of \<open>ExtractPlanCode\<close> succeed, the third underscore
  is at least two positions after the first, so the check \<open>third <= first+1\<close> never
  holds: for every URL the result is a plan code, an error of \<open>url.Parse\<close>, the
  "no filename" error or one of the two errors about missing underscores, and never the
  error "invalid underscore positions in filename".
\<close>

theorem ExtractPlanCode_invalid_positions_unreachable:
  "(\<forall>first second0 second third0 third.
       first = strings_Index filename ''_'' \<and> first \<noteq> -1
       \<and> second0 = strings_Index (slice_from filename (first + 1)) ''_'' \<and> second0 \<noteq> -1
       \<and> second = second0 + (first + 1)
       \<and> third0 = strings_Index (slice_from filename (second + 1)) ''_'' \<and> third0 \<noteq> -1
       \<and> third = third0 + (second + 1)
       \<longrightarrow> first + 2 \<le> third)
   \<and> ExtractPlanCode rawURL \<noteq> Inl InvalidUnderscorePositions
   \<and> ((\<exists>planCode. ExtractPlanCode rawURL = Inr planCode)
        \<or> (\<exists>err. ExtractPlanCode rawURL = Inl (UrlError err))
        \<or> ExtractPlanCode rawURL = Inl NoFilenameInUrlPath
        \<or> ExtractPlanCode rawURL = Inl FilenameNoUnderscores
        \<or> ExtractPlanCode rawURL = Inl FilenameNotEnoughUnderscores)"
proof (intro conjI)
  show "\<forall>first second0 second third0 third.
       first = strings_Index filename ''_'' \<and> first \<noteq> -1
       \<and> second0 = strings_Index (slice_from filename (first + 1)) ''_'' \<and> second0 \<noteq> -1
       \<and> second = second0 + (first + 1)
       \<and> third0 = strings_Index (slice_from filename (second + 1)) ''_'' \<and> third0 \<noteq> -1
       \<and> third = third0 + (second + 1)
       \<longrightarrow> first + 2 \<le> third"
    using third_underscore_position by blast
  have pos: "0 \<le> a \<Longrightarrow> 0 \<le> b \<Longrightarrow> 0 \<le> c \<Longrightarrow> \<not> c + (b + (a + 1) + 1) \<le> a + 1" for a b c :: int
    by arith
  show ne: "ExtractPlanCode rawURL \<noteq> Inl InvalidUnderscorePositions"
    using pos
    by (auto simp: ExtractPlanCode_def Let_def dest!: strings_Index_single_ge split: sum.splits)
  show "(\<exists>planCode. ExtractPlanCode rawURL = Inr planCode)
        \<or> (\<exists>err. ExtractPlanCode rawURL = Inl (UrlError err))
        \<or> ExtractPlanCode rawURL = Inl NoFilenameInUrlPath
        \<or> ExtractPlanCode rawURL = Inl FilenameNoUnderscores
        \<or> ExtractPlanCode rawURL = Inl FilenameNotEnoughUnderscores"
    using pos
    by (auto simp: ExtractPlanCode_def Let_def dest!: strings_Index_single_ge split: sum.splits)
qed

theorem ExtractPlanCode_invalid_positions_unreachable_witness:
  "strings_Index ''FILE_301_71A0_2024.json'' ''_'' = 4
   \<and> strings_Index (slice_from ''FILE_301_71A0_2024.json'' (4 + 1)) ''_'' = 3
   \<and> strings_Index (slice_from ''FILE_301_71A0_2024.json'' (3 + (4 + 1) + 1)) ''_'' = 4
   \<and> (4::int) + 2 \<le> 4 + (3 + (4 + 1) + 1)
   \<and> ExtractPlanCode ''https://host/path/FILE_301_71A0_2024.json'' = Inr ''301_71A0''"
proof -
  have i1: "strings_Index ''FILE_301_71A0_2024.json'' ''_'' = 4"
    by code_simp
  have i2: "strings_Index (slice_from ''FILE_301_71A0_2024.json'' (4 + 1)) ''_'' = 3"
    by code_simp
  have i3: "strings_Index (slice_from ''FILE_301_71A0_2024.json'' (3 + (4 + 1) + 1)) ''_'' = 4"
    by code_simp
  have e: "ExtractPlanCode ''https://host/path/FILE_301_71A0_2024.json'' = Inr ''301_71A0''"
    by code_simp
  have "(4::int) + 2 \<le> 4 + (3 + (4 + 1) + 1)"
    using ExtractPlanCode_invalid_positions_unreachable
            [of "''FILE_301_71A0_2024.json''" "''https://host/path/FILE_301_71A0_2024.json''"]
          i1 i2 i3
    by simp
  then show ?thesis using i1 i2 i3 e by simp
qed

section \<open>Lower case\<close>

lemma toLowerByte_not_upper: "\<not> byteIn (toLowerByte c) CHR ''A'' CHR ''Z''"
proof (cases "byteIn c CHR ''A'' CHR ''Z''")
  case True
  then have r: "65 \<le> (of_char c :: nat)" "(of_char c :: nat) \<le> 90"
    by (simp_all add: byteIn_def less_eq_char_def)
  then have "(of_char (char_of (of_char c + (32::nat))) :: nat) = of_char c + 32"
    by simp
  with r True show ?thesis
    by (simp add: toLowerByte_def byteIn_def less_eq_char_def)
next
  case False
  then show ?thesis by (simp add: toLowerByte_def)
qed

lemma strings_ToLower_no_upper:
  "c \<in> set (strings_ToLower s) \<Longrightarrow> \<not> byteIn c CHR ''A'' CHR ''Z''"
  by (auto simp: strings_ToLower_def toLowerByte_not_upper)

lemma strings_ToLower_not_in_local_table:
  "strings_ToLower s \<notin> set checkInNetworkFiles_regionCodes"
proof
  assume a: "strings_ToLower s \<in> set checkInNetworkFiles_regionCodes"
  have "\<exists>c \<in> set t. byteIn c CHR ''A'' CHR ''Z''" if "t \<in> set checkInNetworkFiles_regionCodes" for t
    using that by (auto simp: checkInNetworkFiles_regionCodes_def byteIn_def less_eq_char_def)
  from this [OF a] show False using strings_ToLower_no_upper by blast
qed

lemma regionCodeMatch_never: "\<not> regionCodeMatch location"
  by (simp add: regionCodeMatch_def strings_ToLower_not_in_local_table split: sum.splits)

lemma strings_ToLower_not_placeholder:
  "strings_ToLower s \<noteq> ''In-Network Negotiated Rates Files''"
proof
  assume "strings_ToLower s = ''In-Network Negotiated Rates Files''"
  then have "CHR ''I'' \<in> set (strings_ToLower s)" by simp
  then have "\<not> byteIn CHR ''I'' CHR ''A'' CHR ''Z''" by (rule strings_ToLower_no_upper)
  then show False by (simp add: byteIn_def less_eq_char_def)
qed

lemma getUniquePlans_file_inserts:
  "getUniquePlans_file description st =
     st\<lparr>plansFound := map_insert (strings_ToLower description) (plansFound st)\<rparr>"
  by (simp add: getUniquePlans_file_def Let_def strings_ToLower_not_placeholder)

section \<open>Region-code signal and placeholder description\<close>

text \<open>
  Claim C1, where the program departs from it. In \<open>checkInNetworkFiles\<close> the lower-cased
  plan code is looked up in a local table whose entries are upper case, so the
  \<open>regionCodeMatch\<close> signal is false for every location. For the location
  \<open>https://host/path/FILE_301_71A0_2024.json\<close> extraction succeeds with \<open>301_71A0\<close>, whose
  lower case is in the lower-cased table \<open>regionCodes\<close>: \<open>getPpoPricesByHeuristics\<close> records
  the location, and \<open>checkInNetworkFiles\<close> writes no match for it.
\<close>

theorem regionCodeMatch_shadowed_table:
  "\<not> regionCodeMatch location
   \<and> ExtractPlanCode ''https://host/path/FILE_301_71A0_2024.json'' = Inr ''301_71A0''
   \<and> strings_ToLower ''301_71A0'' \<in> set regionCodes
   \<and> getPpoPricesByHeuristics
        (JArray [JObject [(''description'', JString ''Excellus BCBS : BluePPO''),
                          (''location'', JString ''https://host/path/FILE_301_71A0_2024.json'')]])
        init_state
      = (None, init_state\<lparr>uniquePpoPrices := [''https://host/path/FILE_301_71A0_2024.json'']\<rparr>)
   \<and> checkInNetworkFiles (\<lambda>n p t. Inr ''false'') []
        (JArray [JObject [(''description'', JString ''Excellus BCBS : BluePPO''),
                          (''location'', JString ''https://host/path/FILE_301_71A0_2024.json'')]])
        init_state
      = (None, init_state\<lparr>llmCalls := 1\<rparr>)"
proof (intro conjI)
  show "\<not> regionCodeMatch location"
    by (rule regionCodeMatch_never)
  show "ExtractPlanCode ''https://host/path/FILE_301_71A0_2024.json'' = Inr ''301_71A0''"
    by code_simp
  show "strings_ToLower ''301_71A0'' \<in> set regionCodes"
    by code_simp
  show "getPpoPricesByHeuristics
        (JArray [JObject [(''description'', JString ''Excellus BCBS : BluePPO''),
                          (''location'', JString ''https://host/path/FILE_301_71A0_2024.json'')]])
        init_state
      = (None, init_state\<lparr>uniquePpoPrices := [''https://host/path/FILE_301_71A0_2024.json'']\<rparr>)"
    by code_simp
  show "checkInNetworkFiles (\<lambda>n p t. Inr ''false'') []
        (JArray [JObject [(''description'', JString ''Excellus BCBS : BluePPO''),
                          (''location'', JString ''https://host/path/FILE_301_71A0_2024.json'')]])
        init_state
      = (None, init_state\<lparr>llmCalls := 1\<rparr>)"
    by code_simp
qed

text \<open>
  Claim C2, where the program departs from it. \<open>getUniquePlans\<close> compares the lower-cased
  description with the literal \<open>In-Network Negotiated Rates Files\<close>, which has upper-case
  letters, so the comparison never holds and every description is inserted: a file
  reference with the placeholder description leaves its lower case in \<open>plansFound\<close>.
\<close>

theorem getUniquePlans_keeps_placeholder:
  "getUniquePlans
     (JArray [JObject [(''description'', JString ''In-Network Negotiated Rates Files'')]])
     init_state
   = (None, init_state\<lparr>plansFound := [''in-network negotiated rates files'']\<rparr>)
   \<and> getUniquePlans_file description st =
       st\<lparr>plansFound := map_insert (strings_ToLower description) (plansFound st)\<rparr>"
proof
  show "getUniquePlans
     (JArray [JObject [(''description'', JString ''In-Network Negotiated Rates Files'')]])
     init_state
   = (None, init_state\<lparr>plansFound := [''in-network negotiated rates files'']\<rparr>)"
    by code_simp
  show "getUniquePlans_file description st =
       st\<lparr>plansFound := map_insert (strings_ToLower description) (plansFound st)\<rparr>"
    by (rule getUniquePlans_file_inserts)
qed

section \<open>Heuristic match\<close>

lemma set_map_insert: "set (map_insert k m) = insert k (set m)"
  by (auto simp: map_insert_def)

lemma distinct_map_insert: "distinct m \<Longrightarrow> distinct (map_insert k m)"
  by (simp add: map_insert_def)

text \<open>The functions of the pipeline are the instances at the library functions modelled.\<close>

lemma ExtractPlanCode_with_url_Parse: "ExtractPlanCode_with url_Parse rawURL = ExtractPlanCode rawURL"
  by (simp add: ExtractPlanCode_with_def ExtractPlanCode_def)

lemma getPpoPricesByHeuristics_file_instance:
  "getPpoPricesByHeuristics_file_with strings_ToLower url_Parse f st =
     getPpoPricesByHeuristics_file f st"
  by (simp add: getPpoPricesByHeuristics_file_with_def getPpoPricesByHeuristics_file_def
        ExtractPlanCode_with_url_Parse)

lemma decode_inNetworkFile_error: "decode_inNetworkFile v = Inl err \<Longrightarrow> err = DecodePlan"
  by (cases v) (auto simp: decode_inNetworkFile_def Let_def split: prod.splits if_splits)

lemma getPpoPricesByHeuristics_loop_instance:
  "getPpoPricesByHeuristics_loop_with strings_ToLower decode_inNetworkFile url_Parse vs st =
     getPpoPricesByHeuristics_loop vs st"
proof (induction vs arbitrary: st)
  case Nil
  show ?case by simp
next
  case (Cons v vs)
  show ?case
  proof (cases "decode_inNetworkFile v")
    case (Inl err)
    with decode_inNetworkFile_error [OF Inl] show ?thesis by simp
  next
    case (Inr f)
    with Cons.IH show ?thesis by (simp add: getPpoPricesByHeuristics_file_instance)
  qed
qed

lemma getPpoPricesByHeuristics_instance:
  "getPpoPricesByHeuristics_with strings_ToLower decode_inNetworkFile url_Parse tok st =
     getPpoPricesByHeuristics tok st"
  by (cases tok)
     (simp_all add: getPpoPricesByHeuristics_with_def getPpoPricesByHeuristics_def
        getPpoPricesByHeuristics_loop_instance)

lemma getPpoPricesByHeuristics_file_prices:
  "set (uniquePpoPrices (getPpoPricesByHeuristics_file_with lower parse f st)) =
     set (uniquePpoPrices st)
     \<union> (if lower (Description f) \<in> set ppoPlansMap
           \<and> (\<exists>planCode. ExtractPlanCode_with parse (Location f) = Inr planCode
                           \<and> lower planCode \<in> set regionCodes)
         then {Location f} else {})"
  by (auto simp: getPpoPricesByHeuristics_file_with_def Let_def set_map_insert split: sum.splits)

lemma getPpoPricesByHeuristics_loop_prices:
  "getPpoPricesByHeuristics_loop_with lower decode parse vs st = (r, st') \<Longrightarrow>
   set (uniquePpoPrices st') =
     set (uniquePpoPrices st)
     \<union> {Location f | f. f \<in> set (decoded_files_with decode vs)
           \<and> lower (Description f) \<in> set ppoPlansMap
           \<and> (\<exists>planCode. ExtractPlanCode_with parse (Location f) = Inr planCode
                           \<and> lower planCode \<in> set regionCodes)}"
proof (induction vs arbitrary: st)
  case Nil
  then show ?case by simp
next
  case (Cons v vs)
  show ?case
  proof (cases "decode v")
    case (Inl err)
    with Cons.prems show ?thesis by simp
  next
    case (Inr f)
    with Cons.prems have
      "getPpoPricesByHeuristics_loop_with lower decode parse vs
         (getPpoPricesByHeuristics_file_with lower parse f st) = (r, st')"
      by simp
    from Cons.IH [OF this] show ?thesis
      unfolding getPpoPricesByHeuristics_file_prices using Inr by auto
  qed
qed

text \<open>
  Claim C5. Whatever \<open>strings.ToLower\<close>, the decoder and \<open>url.Parse\<close> compute, here \<open>lower\<close>,
  \<open>decode\<close> and \<open>parse\<close>: after \<open>getPpoPricesByHeuristics\<close> the set \<open>uniquePpoPrices\<close> has
  gained exactly the locations of the file references it decoded whose lower-cased
  description is in \<open>ppoPlansMap\<close> and whose plan code is extracted and, lower-cased, in
  \<open>regionCodes\<close>. A file reference whose description is not in the table leaves the
  state as it is, whatever its location.
\<close>

theorem getPpoPricesByHeuristics_matches:
  assumes "getPpoPricesByHeuristics_with lower decode parse tok st = (r, st')"
  shows "set (uniquePpoPrices st') =
           set (uniquePpoPrices st)
           \<union> {Location f | f. f \<in> set (decoded_files_with decode (elements tok))
                 \<and> lower (Description f) \<in> set ppoPlansMap
                 \<and> (\<exists>planCode. ExtractPlanCode_with parse (Location f) = Inr planCode
                                 \<and> lower planCode \<in> set regionCodes)}
         \<and> (lower (Description g) \<notin> set ppoPlansMap \<longrightarrow>
              getPpoPricesByHeuristics_file_with lower parse g st = st)"
proof
  show "set (uniquePpoPrices st') =
           set (uniquePpoPrices st)
           \<union> {Location f | f. f \<in> set (decoded_files_with decode (elements tok))
                 \<and> lower (Description f) \<in> set ppoPlansMap
                 \<and> (\<exists>planCode. ExtractPlanCode_with parse (Location f) = Inr planCode
                                 \<and> lower planCode \<in> set regionCodes)}"
  proof (cases tok)
    case (JArray vs)
    with assms have "getPpoPricesByHeuristics_loop_with lower decode parse vs st = (r, st')"
      by (simp add: getPpoPricesByHeuristics_with_def)
    from getPpoPricesByHeuristics_loop_prices [OF this] JArray show ?thesis by simp
  qed (use assms in \<open>auto simp: getPpoPricesByHeuristics_with_def\<close>)
  show "lower (Description g) \<notin> set ppoPlansMap \<longrightarrow>
              getPpoPricesByHeuristics_file_with lower parse g st = st"
    by (simp add: getPpoPricesByHeuristics_file_with_def)
qed

theorem getPpoPricesByHeuristics_matches_witness:
  "getPpoPricesByHeuristics_with strings_ToLower decode_inNetworkFile url_Parse
     (JArray [JObject [(''description'', JString ''Excellus BCBS : BluePPO''),
                      (''location'', JString ''https://host/path/FILE_301_71A0_2024.json'')],
             JObject [(''description'', JString ''Unknown plan''),
                      (''location'', JString ''https://host/path/FILE_301_71A0_2025.json'')],
             JObject [(''description'', JString ''Excellus BCBS : BluePPO''),
                      (''location'', JString ''https://host/path/FILE_999_99Z9_2024.json'')]])
     init_state
   = (None, init_state\<lparr>uniquePpoPrices := [''https://host/path/FILE_301_71A0_2024.json'']\<rparr>)
   \<and> {Location f | f. f \<in> set (decoded_files_with decode_inNetworkFile (elements
         (JArray [JObject [(''description'', JString ''Excellus BCBS : BluePPO''),
                          (''location'', JString ''https://host/path/FILE_301_71A0_2024.json'')],
                 JObject [(''description'', JString ''Unknown plan''),
                          (''location'', JString ''https://host/path/FILE_301_71A0_2025.json'')],
                 JObject [(''description'', JString ''Excellus BCBS : BluePPO''),
                          (''location'', JString ''https://host/path/FILE_999_99Z9_2024.json'')]])))
         \<and> strings_ToLower (Description f) \<in> set ppoPlansMap
         \<and> (\<exists>planCode. ExtractPlanCode_with url_Parse (Location f) = Inr planCode
                         \<and> strings_ToLower planCode \<in> set regionCodes)}
     = {''https://host/path/FILE_301_71A0_2024.json''}"
proof -
  let ?tok = "(JArray [JObject [(''description'', JString ''Excellus BCBS : BluePPO''),
                      (''location'', JString ''https://host/path/FILE_301_71A0_2024.json'')],
             JObject [(''description'', JString ''Unknown plan''),
                      (''location'', JString ''https://host/path/FILE_301_71A0_2025.json'')],
             JObject [(''description'', JString ''Excellus BCBS : BluePPO''),
                      (''location'', JString ''https://host/path/FILE_999_99Z9_2024.json'')]])"
  have h: "getPpoPricesByHeuristics_with strings_ToLower decode_inNetworkFile url_Parse ?tok init_state
           = (None, init_state\<lparr>uniquePpoPrices := [''https://host/path/FILE_301_71A0_2024.json'']\<rparr>)"
    by code_simp
  from getPpoPricesByHeuristics_matches [OF h]
  have "{Location f | f. f \<in> set (decoded_files_with decode_inNetworkFile (elements ?tok))
              \<and> strings_ToLower (Description f) \<in> set ppoPlansMap
              \<and> (\<exists>planCode. ExtractPlanCode_with url_Parse (Location f) = Inr planCode
                              \<and> strings_ToLower planCode \<in> set regionCodes)}
        = {''https://host/path/FILE_301_71A0_2024.json''}"
    by (simp add: init_state_def)
  with h show ?thesis by simp
qed

section \<open>Record correlator\<close>

lemma decode_reportingPlan_error: "decode_reportingPlan v = Inl err \<Longrightarrow> err = DecodeReportingPlan"
  by (cases v) (auto simp: decode_reportingPlan_def Let_def split: prod.splits if_splits)

lemma processReportingPlan_loop_instance:
  "processReportingPlan_loop_with strings_ToLower decode_reportingPlan vs eins =
     processReportingPlan_loop vs eins"
proof (induction vs arbitrary: eins)
  case Nil
  show ?case by simp
next
  case (Cons v vs)
  show ?case
  proof (cases "decode_reportingPlan v")
    case (Inl err)
    with decode_reportingPlan_error [OF Inl] show ?thesis by simp
  next
    case (Inr p)
    with Cons.IH show ?thesis by simp
  qed
qed

lemma processReportingPlan_instance:
  "processReportingPlan_with strings_ToLower decode_reportingPlan tok = processReportingPlan tok"
  by (cases tok)
     (simp_all add: processReportingPlan_with_def processReportingPlan_def
        processReportingPlan_loop_instance)

lemma processReportingPlan_loop_eins:
  "processReportingPlan_loop_with lower decode vs acc = Inr eins \<Longrightarrow> distinct acc \<Longrightarrow>
   distinct eins \<and>
   set eins = set acc \<union> {plan_Id p | p. (\<exists>v \<in> set vs. decode v = Inr p)
                                      \<and> lower (plan_Type p) = ''ein''}"
proof (induction vs arbitrary: acc)
  case Nil
  then show ?case by simp
next
  case (Cons v vs)
  from Cons.prems(1) obtain p where p: "decode v = Inr p"
    by (cases "decode v") auto
  let ?acc = "if lower (plan_Type p) = ''ein'' then map_insert (plan_Id p) acc else acc"
  from Cons.prems p have run: "processReportingPlan_loop_with lower decode vs ?acc = Inr eins"
    by simp
  have d: "distinct ?acc" using Cons.prems(2) by (simp add: distinct_map_insert)
  from Cons.IH [OF run d] show ?case using p by (auto simp: set_map_insert)
qed

lemma processReportingPlan_loop_succeeds:
  "\<forall>v \<in> set vs. \<exists>p. decode v = Inr p \<Longrightarrow>
   \<exists>eins. processReportingPlan_loop_with lower decode vs acc = Inr eins"
  by (induction vs arbitrary: acc) auto

text \<open>
  Claim C8. Whatever \<open>strings.ToLower\<close> and the decoder compute, here \<open>lower\<close> and \<open>decode\<close>:
  when \<open>processReportingPlan\<close> succeeds, the identifiers it returns are without
  repetition, and an id is among them exactly when an element of the list decodes to a
  plan with that id whose type, lower-cased, is \<open>ein\<close>, which is the case-insensitive
  comparison the program makes; ids are compared as they are, so two ids that differ in
  case are both kept. It succeeds on an array whose elements all decode.
\<close>

theorem processReportingPlan_eins:
  "(processReportingPlan_with lower decode tok = Inr eins \<longrightarrow>
      distinct eins
      \<and> set eins = {plan_Id p | p. (\<exists>v \<in> set (elements tok). decode v = Inr p)
                                  \<and> lower (plan_Type p) = ''ein''})
   \<and> (isArray tok \<and> (\<forall>v \<in> set (elements tok). \<exists>p. decode v = Inr p) \<longrightarrow>
        (\<exists>eins. processReportingPlan_with lower decode tok = Inr eins))"
proof (intro conjI impI)
  assume a: "processReportingPlan_with lower decode tok = Inr eins"
  then obtain vs where tok: "tok = JArray vs"
    by (cases tok) (simp_all add: processReportingPlan_with_def)
  with a have "processReportingPlan_loop_with lower decode vs [] = Inr eins"
    by (simp add: processReportingPlan_with_def)
  from processReportingPlan_loop_eins [OF this] tok
  show "distinct eins"
    and "set eins = {plan_Id p | p. (\<exists>v \<in> set (elements tok). decode v = Inr p)
                                  \<and> lower (plan_Type p) = ''ein''}"
    by simp_all
next
  assume "isArray tok \<and> (\<forall>v \<in> set (elements tok). \<exists>p. decode v = Inr p)"
  then show "\<exists>eins. processReportingPlan_with lower decode tok = Inr eins"
    using processReportingPlan_loop_succeeds [of _ decode lower]
    by (cases tok) (simp_all add: processReportingPlan_with_def)
qed

theorem processReportingPlan_eins_witness:
  "processReportingPlan_with strings_ToLower decode_reportingPlan
     (JArray [JObject [(''plan_id_type'', JString ''EIN''), (''plan_id'', JString ''123'')],
              JObject [(''plan_id_type'', JString ''hios''), (''plan_id'', JString ''9'')],
              JObject [(''plan_id_type'', JString ''ein''), (''plan_id'', JString ''123'')],
              JObject [(''plan_id_type'', JString ''Ein''), (''plan_id'', JString ''45a'')],
              JObject [(''plan_id_type'', JString ''ein''), (''plan_id'', JString ''45A'')]])
     = Inr [''123'', ''45a'', ''45A'']
   \<and> distinct [''123'', ''45a'', ''45A'']"
proof -
  let ?tok = "JArray [JObject [(''plan_id_type'', JString ''EIN''), (''plan_id'', JString ''123'')],
              JObject [(''plan_id_type'', JString ''hios''), (''plan_id'', JString ''9'')],
              JObject [(''plan_id_type'', JString ''ein''), (''plan_id'', JString ''123'')],
              JObject [(''plan_id_type'', JString ''Ein''), (''plan_id'', JString ''45a'')],
              JObject [(''plan_id_type'', JString ''ein''), (''plan_id'', JString ''45A'')]]"
  have h: "processReportingPlan_with strings_ToLower decode_reportingPlan ?tok
           = Inr [''123'', ''45a'', ''45A'']"
    by code_simp
  from processReportingPlan_eins
         [of strings_ToLower decode_reportingPlan ?tok "[''123'', ''45a'', ''45A'']"] h
  show ?thesis by blast
qed

section \<open>Output of the walker\<close>

lemma degrade_append: "degrade (a @ b) = degrade a @ degrade b"
  by (simp add: degrade_def)

lemma degrade_Nil: "degrade [] = []"
  by (simp add: degrade_def)

lemma degrade_no_ai: "MatchLine m \<in> set (degrade ls) \<Longrightarrow> \<not> AIMatch m"
proof -
  have "MatchLine m \<in> set (degrade_line l) \<Longrightarrow> \<not> AIMatch m" for l
    by (cases l) (auto split: if_splits)
  then show "MatchLine m \<in> set (degrade ls) \<Longrightarrow> \<not> AIMatch m"
    by (auto simp: degrade_def)
qed

lemma doLlmQuery_state:
  "snd (doLlmQuery f llama p st) = st\<lparr>llmCalls := llmCalls st + 1\<rparr>"
  by (simp add: doLlmQuery_def GenerateContent_def split: sum.splits)

lemma aiMatch_state:
  "\<exists>n. snd (aiMatch llama f st) = st\<lparr>llmCalls := n\<rparr>"
proof -
  obtain r1 st1 where q1: "doLlmQuery f llama isNewYorkPrompt st = (r1, st1)" by fastforce
  then have s1: "st1 = st\<lparr>llmCalls := llmCalls st + 1\<rparr>" using doLlmQuery_state [of f llama isNewYorkPrompt st] by simp
  obtain r2 st2 where q2: "doLlmQuery f llama isPpoPrompt st1 = (r2, st2)" by fastforce
  then have s2: "st2 = st1\<lparr>llmCalls := llmCalls st1 + 1\<rparr>" using doLlmQuery_state [of f llama isPpoPrompt st1] by simp
  show ?thesis
    using q1 q2 s1 s2 by (auto simp: aiMatch_def split: sum.splits bool.splits)
qed

lemma aiMatch_unavailable:
  "unavailable llama \<Longrightarrow> fst (aiMatch llama f st) = False"
proof -
  assume u: "unavailable llama"
  then obtain err where "llama (llmCalls st) isNewYorkPrompt (Description f) = Inl err"
    unfolding unavailable_def by blast
  then show ?thesis
    by (simp add: aiMatch_def doLlmQuery_def GenerateContent_def)
qed

lemma checkInNetworkFiles_file_state:
  "checkInNetworkFiles_file llama eins f st =
     st\<lparr>stdout := stdout st @ match_lines eins f (fst (aiMatch llama f st)),
        llmCalls := llmCalls (snd (aiMatch llama f st))\<rparr>"
proof -
  obtain ai st' where a: "aiMatch llama f st = (ai, st')" by fastforce
  with aiMatch_state [of llama f st] obtain n where "st' = st\<lparr>llmCalls := n\<rparr>" by auto
  with a show ?thesis
    by (simp add: checkInNetworkFiles_file_def match_lines_def printMatch_def Let_def)
qed

lemma degrade_match_lines: "degrade (match_lines eins f ai) = match_lines eins f False"
  by (simp add: degrade_def match_lines_def)

lemma degraded_refl: "same_globals st st2 \<Longrightarrow> degraded st st2 st st2"
  by (auto simp: degraded_def degrade_Nil)

lemma degraded_trans:
  "degraded st st2 sa sa2 \<Longrightarrow> degraded sa sa2 st' st2' \<Longrightarrow> degraded st st2 st' st2'"
  by (auto simp: degraded_def degrade_append)

lemma degraded_same: "degraded st st2 st' st2' \<Longrightarrow> same_globals st' st2'"
  by (simp add: degraded_def)

lemma checkInNetworkFiles_file_degraded:
  assumes "unavailable down" and "same_globals st st2"
  shows "degraded st st2 (checkInNetworkFiles_file down eins f st) (checkInNetworkFiles_file llama eins f st2)"
proof -
  have a: "checkInNetworkFiles_file down eins f st =
          st\<lparr>stdout := stdout st @ match_lines eins f False,
             llmCalls := llmCalls (snd (aiMatch down f st))\<rparr>"
    using checkInNetworkFiles_file_state [of down eins f st] aiMatch_unavailable [OF assms(1)]
    by simp
  show ?thesis
    unfolding degraded_def a checkInNetworkFiles_file_state [of llama eins f st2]
    using assms(2) by (auto simp: same_globals_def degrade_match_lines)
qed

lemma checkInNetworkFiles_loop_degraded:
  assumes "unavailable down"
  shows "same_globals st st2 \<Longrightarrow>
         fst (checkInNetworkFiles_loop down eins vs st) = fst (checkInNetworkFiles_loop llama eins vs st2)
         \<and> degraded st st2 (snd (checkInNetworkFiles_loop down eins vs st))
                          (snd (checkInNetworkFiles_loop llama eins vs st2))"
proof (induction vs arbitrary: st st2)
  case Nil
  then show ?case by (simp add: degraded_refl)
next
  case (Cons v vs)
  show ?case
  proof (cases "decode_inNetworkFile v")
    case (Inl err)
    then show ?thesis using Cons.prems by (simp add: degraded_refl)
  next
    case (Inr f)
    let ?s = "checkInNetworkFiles_file down eins f st"
    let ?s2 = "checkInNetworkFiles_file llama eins f st2"
    have step: "degraded st st2 ?s ?s2"
      by (rule checkInNetworkFiles_file_degraded [OF assms Cons.prems])
    from Cons.IH [OF degraded_same [OF step]] Inr show ?thesis
      using degraded_trans [OF step] by simp
  qed
qed

lemma checkInNetworkFiles_degraded:
  assumes "unavailable down" and "same_globals st st2"
  shows "fst (checkInNetworkFiles down eins tok st) = fst (checkInNetworkFiles llama eins tok st2)
         \<and> degraded st st2 (snd (checkInNetworkFiles down eins tok st))
                          (snd (checkInNetworkFiles llama eins tok st2))"
  using checkInNetworkFiles_loop_degraded [OF assms] assms(2)
  by (cases tok) (simp_all add: checkInNetworkFiles_def degraded_refl)

lemma same_globals_refl: "same_globals st st"
  by (simp add: same_globals_def)

lemma getUniquePlans_loop_state:
  "stdout (snd (getUniquePlans_loop vs st)) = stdout st
   \<and> isUniquePlansMode (snd (getUniquePlans_loop vs st)) = isUniquePlansMode st
   \<and> isAnalysisMode (snd (getUniquePlans_loop vs st)) = isAnalysisMode st
   \<and> isHeuristicsMode (snd (getUniquePlans_loop vs st)) = isHeuristicsMode st"
  by (induction vs arbitrary: st) (auto simp: getUniquePlans_file_def Let_def split: sum.splits)

lemma getUniquePlans_loop_same:
  "same_globals st st2 \<Longrightarrow>
   fst (getUniquePlans_loop vs st) = fst (getUniquePlans_loop vs st2)
   \<and> same_globals (snd (getUniquePlans_loop vs st)) (snd (getUniquePlans_loop vs st2))"
proof (induction vs arbitrary: st st2)
  case Nil
  then show ?case by simp
next
  case (Cons v vs)
  show ?case
  proof (cases "decode_description v")
    case (Inl err)
    then show ?thesis using Cons.prems by simp
  next
    case (Inr d)
    have "same_globals (getUniquePlans_file d st) (getUniquePlans_file d st2)"
      using Cons.prems by (simp add: same_globals_def getUniquePlans_file_def Let_def)
    from Cons.IH [OF this] Inr show ?thesis by simp
  qed
qed

lemma getPpoPricesByHeuristics_loop_state:
  "stdout (snd (getPpoPricesByHeuristics_loop vs st)) = stdout st
   \<and> isUniquePlansMode (snd (getPpoPricesByHeuristics_loop vs st)) = isUniquePlansMode st
   \<and> isAnalysisMode (snd (getPpoPricesByHeuristics_loop vs st)) = isAnalysisMode st
   \<and> isHeuristicsMode (snd (getPpoPricesByHeuristics_loop vs st)) = isHeuristicsMode st"
  by (induction vs arbitrary: st)
     (auto simp: getPpoPricesByHeuristics_file_def Let_def split: sum.splits)

lemma getPpoPricesByHeuristics_loop_same:
  "same_globals st st2 \<Longrightarrow>
   fst (getPpoPricesByHeuristics_loop vs st) = fst (getPpoPricesByHeuristics_loop vs st2)
   \<and> same_globals (snd (getPpoPricesByHeuristics_loop vs st))
                    (snd (getPpoPricesByHeuristics_loop vs st2))"
proof (induction vs arbitrary: st st2)
  case Nil
  then show ?case by simp
next
  case (Cons v vs)
  show ?case
  proof (cases "decode_inNetworkFile v")
    case (Inl err)
    then show ?thesis using Cons.prems by simp
  next
    case (Inr f)
    have "same_globals (getPpoPricesByHeuristics_file f st) (getPpoPricesByHeuristics_file f st2)"
      using Cons.prems by (simp add: same_globals_def getPpoPricesByHeuristics_file_def Let_def)
    from Cons.IH [OF this] Inr show ?thesis by simp
  qed
qed

lemma silent_degraded:
  "same_globals st' st2' \<Longrightarrow> stdout st' = stdout st \<Longrightarrow> stdout st2' = stdout st2 \<Longrightarrow>
   degraded st st2 st' st2'"
  by (simp add: degraded_def degrade_Nil)

lemma getUniquePlans_degraded:
  assumes "same_globals st st2"
  shows "fst (getUniquePlans tok st) = fst (getUniquePlans tok st2)
         \<and> degraded st st2 (snd (getUniquePlans tok st)) (snd (getUniquePlans tok st2))"
  using getUniquePlans_loop_same [OF assms] assms
  by (cases tok) (simp_all add: getUniquePlans_def degraded_refl silent_degraded getUniquePlans_loop_state)

lemma getPpoPricesByHeuristics_degraded:
  assumes "same_globals st st2"
  shows "fst (getPpoPricesByHeuristics tok st) = fst (getPpoPricesByHeuristics tok st2)
         \<and> degraded st st2 (snd (getPpoPricesByHeuristics tok st))
                          (snd (getPpoPricesByHeuristics tok st2))"
  using getPpoPricesByHeuristics_loop_same [OF assms] assms
  by (cases tok)
     (simp_all add: getPpoPricesByHeuristics_def degraded_refl silent_degraded
        getPpoPricesByHeuristics_loop_state)

lemma scanReportingRecord_loop_files:
  "scanReportingRecord_loop llama eins ((''in_network_files'', v) # rest) st =
     (case inNetworkFiles_dispatch llama eins v st of
        (Some err, st') \<Rightarrow> (Some err, st')
      | (None, st') \<Rightarrow> scanReportingRecord_loop llama eins rest st')"
  by (simp add: inNetworkFiles_dispatch_def)

lemma inNetworkFiles_dispatch_degraded:
  assumes "unavailable down" and "same_globals st st2"
  shows "fst (inNetworkFiles_dispatch down eins v st) = fst (inNetworkFiles_dispatch llama eins v st2)
         \<and> degraded st st2 (snd (inNetworkFiles_dispatch down eins v st))
                          (snd (inNetworkFiles_dispatch llama eins v st2))"
proof -
  have flags: "isUniquePlansMode st2 = isUniquePlansMode st" "isAnalysisMode st2 = isAnalysisMode st"
    "isHeuristicsMode st2 = isHeuristicsMode st"
    using assms(2) by (simp_all add: same_globals_def)
  show ?thesis
    unfolding inNetworkFiles_dispatch_def flags
    using getUniquePlans_degraded [OF assms(2)] checkInNetworkFiles_degraded [OF assms]
      getPpoPricesByHeuristics_degraded [OF assms(2)] degraded_refl [OF assms(2)]
    by simp
qed

lemma scanReportingRecord_loop_degraded:
  assumes "unavailable down"
  shows "same_globals st st2 \<Longrightarrow>
         fst (scanReportingRecord_loop down eins ms st) = fst (scanReportingRecord_loop llama eins ms st2)
         \<and> degraded st st2 (snd (scanReportingRecord_loop down eins ms st))
                          (snd (scanReportingRecord_loop llama eins ms st2))"
proof (induction ms arbitrary: eins st st2)
  case Nil
  then show ?case by (simp add: degraded_refl)
next
  case (Cons kv ms)
  obtain key v where kv: "kv = (key, v)" by (cases kv)
  have an: "isAnalysisMode st2 = isAnalysisMode st"
    using Cons.prems by (simp add: same_globals_def)
  show ?case
  proof (cases "key = ''in_network_files''")
    case True
    obtain r s where d: "inNetworkFiles_dispatch down eins v st = (r, s)" by fastforce
    obtain r2 s2 where d2: "inNetworkFiles_dispatch llama eins v st2 = (r2, s2)" by fastforce
    from inNetworkFiles_dispatch_degraded [OF assms Cons.prems, of eins v llama] d d2
    have r: "r2 = r" and step: "degraded st st2 s s2" by simp_all
    show ?thesis
    proof (cases r)
      case None
      from Cons.IH [OF degraded_same [OF step], of eins] degraded_trans [OF step]
      show ?thesis
        unfolding kv True scanReportingRecord_loop_files d d2 r None by simp
    next
      case (Some err)
      with step show ?thesis
        unfolding kv True scanReportingRecord_loop_files d d2 r by simp
    qed
  next
    case False
    show ?thesis
    proof (cases "key = ''reporting_plans'' \<and> isAnalysisMode st")
      case True
      then show ?thesis
        using False Cons.IH [OF Cons.prems] Cons.prems an
        by (cases "processReportingPlan v") (simp_all add: kv degraded_refl)
    next
      case False2: False
      then show ?thesis
        using False Cons.IH [OF Cons.prems] an by (auto simp: kv)
    qed
  qed
qed

lemma parseReportingStructure_loop_degraded:
  assumes "unavailable down"
  shows "same_globals st st2 \<Longrightarrow>
         fst (parseReportingStructure_loop down toks st) = fst (parseReportingStructure_loop llama toks st2)
         \<and> degraded st st2 (snd (parseReportingStructure_loop down toks st))
                          (snd (parseReportingStructure_loop llama toks st2))"
proof (induction toks arbitrary: st st2)
  case Nil
  then show ?case by (simp add: degraded_refl)
next
  case (Cons tok toks)
  show ?case
  proof (cases "\<exists>ms. tok = JObject ms")
    case False
    then show ?thesis using Cons.prems by (cases tok) (simp_all add: degraded_refl)
  next
    case True
    then obtain ms where tok: "tok = JObject ms" by blast
    obtain r s where d: "scanReportingRecord_loop down [] ms st = (r, s)" by fastforce
    obtain r2 s2 where d2: "scanReportingRecord_loop llama [] ms st2 = (r2, s2)" by fastforce
    from scanReportingRecord_loop_degraded [OF assms Cons.prems, of "[]" ms llama] d d2
    have r: "r2 = r" and step: "degraded st st2 s s2" by simp_all
    show ?thesis
    proof (cases r)
      case None
      from Cons.IH [OF degraded_same [OF step]] degraded_trans [OF step]
      show ?thesis
        by (simp add: tok scanReportingRecord_def d d2 r None)
    next
      case (Some err)
      with step show ?thesis
        by (simp add: tok scanReportingRecord_def d d2 r)
    qed
  qed
qed

lemma parseReportingStructure_degraded:
  assumes "unavailable down" and "same_globals st st2"
  shows "fst (parseReportingStructure down tok st) = fst (parseReportingStructure llama tok st2)
         \<and> degraded st st2 (snd (parseReportingStructure down tok st))
                          (snd (parseReportingStructure llama tok st2))"
  using parseReportingStructure_loop_degraded [OF assms] assms(2)
  by (cases tok) (simp_all add: parseReportingStructure_def degraded_refl)

lemma parseIndexFile_loop_degraded:
  assumes "unavailable down"
  shows "same_globals st st2 \<Longrightarrow>
         fst (parseIndexFile_loop down ms st) = fst (parseIndexFile_loop llama ms st2)
         \<and> degraded st st2 (snd (parseIndexFile_loop down ms st))
                          (snd (parseIndexFile_loop llama ms st2))"
proof (induction ms arbitrary: st st2)
  case Nil
  then show ?case by (simp add: degraded_refl)
next
  case (Cons kv ms)
  obtain key v where kv: "kv = (key, v)" by (cases kv)
  show ?case
  proof (cases "key = ''reporting_structure''")
    case False
    then show ?thesis using Cons.IH [OF Cons.prems] by (simp add: kv)
  next
    case True
    obtain r s where d: "parseReportingStructure down v st = (r, s)" by fastforce
    obtain r2 s2 where d2: "parseReportingStructure llama v st2 = (r2, s2)" by fastforce
    from parseReportingStructure_degraded [OF assms Cons.prems, of v llama] d d2
    have r: "r2 = r" and step: "degraded st st2 s s2" by simp_all
    show ?thesis
    proof (cases r)
      case None
      from Cons.IH [OF degraded_same [OF step]] degraded_trans [OF step]
      show ?thesis
        by (simp add: kv True d d2 r None)
    next
      case (Some err)
      with step show ?thesis
        by (simp add: kv True d d2 r)
    qed
  qed
qed

lemma parseIndexFile_degraded:
  assumes "unavailable down" and "same_globals st st2"
  shows "fst (parseIndexFile down doc st) = fst (parseIndexFile llama doc st2)
         \<and> degraded st st2 (snd (parseIndexFile down doc st)) (snd (parseIndexFile llama doc st2))"
  using parseIndexFile_loop_degraded [OF assms] assms(2)
  by (cases doc) (simp_all add: parseIndexFile_def degraded_refl)

lemma degraded_emitted:
  "degraded st st2 st' st2' \<Longrightarrow> emitted st st' = degrade (emitted st2 st2')"
  by (auto simp: degraded_def emitted_def)

lemma matches_with_Nil: "matches_with eins []"
  by (simp add: matches_with_def)

lemma matches_with_append:
  "matches_with eins a \<Longrightarrow> matches_with eins b \<Longrightarrow> matches_with eins (a @ b)"
  by (auto simp: matches_with_def)

lemma matches_with_match_lines: "matches_with eins (match_lines eins f ai)"
  by (simp add: matches_with_def match_lines_def)

lemma checkInNetworkFiles_loop_emits:
  "\<exists>new. stdout (snd (checkInNetworkFiles_loop llama eins vs st)) = stdout st @ new
         \<and> matches_with eins new"
proof (induction vs arbitrary: st)
  case Nil
  show ?case by (simp add: matches_with_Nil)
next
  case (Cons v vs)
  show ?case
  proof (cases "decode_inNetworkFile v")
    case (Inl err)
    then show ?thesis by (simp add: matches_with_Nil)
  next
    case (Inr f)
    let ?s = "checkInNetworkFiles_file llama eins f st"
    have s: "stdout ?s = stdout st @ match_lines eins f (fst (aiMatch llama f st))"
      by (subst checkInNetworkFiles_file_state) simp
    from Cons.IH [of ?s] obtain new where
      "stdout (snd (checkInNetworkFiles_loop llama eins vs ?s)) = stdout ?s @ new"
      "matches_with eins new" by blast
    then show ?thesis
      using Inr s matches_with_append [OF matches_with_match_lines] by auto
  qed
qed

lemma inNetworkFiles_dispatch_emits:
  "\<exists>new. stdout (snd (inNetworkFiles_dispatch llama eins v st)) = stdout st @ new
         \<and> matches_with eins new"
proof -
  have a: "\<exists>new. stdout (snd (checkInNetworkFiles llama eins v st)) = stdout st @ new
         \<and> matches_with eins new"
    using checkInNetworkFiles_loop_emits
    by (cases v) (simp_all add: checkInNetworkFiles_def matches_with_Nil)
  have b: "stdout (snd (getUniquePlans v st)) = stdout st"
    by (cases v) (simp_all add: getUniquePlans_def getUniquePlans_loop_state)
  have c: "stdout (snd (getPpoPricesByHeuristics v st)) = stdout st"
    by (cases v) (simp_all add: getPpoPricesByHeuristics_def getPpoPricesByHeuristics_loop_state)
  show ?thesis
    unfolding inNetworkFiles_dispatch_def using a b c by (simp add: matches_with_Nil)
qed

lemma scanReportingRecord_loop_no_files:
  "''in_network_files'' \<notin> fst ` set ms \<Longrightarrow>
   stdout (snd (scanReportingRecord_loop llama eins ms st)) = stdout st"
proof (induction ms arbitrary: eins st)
  case Nil
  show ?case by simp
next
  case (Cons kv ms)
  obtain key v where kv: "kv = (key, v)" by (cases kv)
  with Cons.prems have k: "key \<noteq> ''in_network_files''" and r: "''in_network_files'' \<notin> fst ` set ms"
    by auto
  show ?case
    using k Cons.IH [OF r] by (auto simp: kv split: sum.splits)
qed

lemma scanReportingRecord_loop_no_plans:
  "''reporting_plans'' \<notin> fst ` set ms \<Longrightarrow>
   \<exists>new. stdout (snd (scanReportingRecord_loop llama eins ms st)) = stdout st @ new
         \<and> matches_with eins new"
proof (induction ms arbitrary: st)
  case Nil
  show ?case by (simp add: matches_with_Nil)
next
  case (Cons kv ms)
  obtain key v where kv: "kv = (key, v)" by (cases kv)
  with Cons.prems have k: "key \<noteq> ''reporting_plans''" and r: "''reporting_plans'' \<notin> fst ` set ms"
    by auto
  show ?case
  proof (cases "key = ''in_network_files''")
    case False
    with k Cons.IH [OF r] show ?thesis by (simp add: kv)
  next
    case True
    obtain e s where d: "inNetworkFiles_dispatch llama eins v st = (e, s)" by fastforce
    from inNetworkFiles_dispatch_emits [of llama eins v st] d obtain new where
      n: "stdout s = stdout st @ new" "matches_with eins new" by auto
    show ?thesis
    proof (cases e)
      case (Some err)
      with n show ?thesis
        unfolding kv True scanReportingRecord_loop_files d by auto
    next
      case None
      from Cons.IH [OF r, of s] obtain new2 where
        "stdout (snd (scanReportingRecord_loop llama eins ms s)) = stdout s @ new2"
        "matches_with eins new2" by blast
      with n None show ?thesis
        unfolding kv True scanReportingRecord_loop_files d
        using matches_with_append by auto
    qed
  qed
qed

lemma scanReportingRecord_loop_append:
  "''reporting_plans'' \<notin> fst ` set pre \<Longrightarrow>
   scanReportingRecord_loop llama eins (pre @ post) st =
     (case scanReportingRecord_loop llama eins pre st of
        (Some err, st') \<Rightarrow> (Some err, st')
      | (None, st') \<Rightarrow> scanReportingRecord_loop llama eins post st')"
proof (induction pre arbitrary: st)
  case Nil
  show ?case by simp
next
  case (Cons kv pre)
  obtain key v where kv: "kv = (key, v)" by (cases kv)
  with Cons.prems have k: "key \<noteq> ''reporting_plans''" and r: "''reporting_plans'' \<notin> fst ` set pre"
    by auto
  show ?case
    using k Cons.IH [OF r] by (auto simp: kv split: option.splits prod.splits)
qed

text \<open>
  Claim C4. In a record whose \<open>in_network_files\<close> members all come before its first
  \<open>reporting_plans\<close> member, every match result written for the record carries an empty
  list of identifiers, whatever the later \<open>reporting_plans\<close> members hold.
\<close>

theorem eins_empty_when_files_precede_plans:
  assumes "''reporting_plans'' \<notin> fst ` set pre" and "''in_network_files'' \<notin> fst ` set post"
  shows "\<forall>m. MatchLine m \<in> set (emitted st (snd (scanReportingRecord llama (pre @ post) st)))
              \<longrightarrow> Eins m = []"
proof -
  obtain e s where p: "scanReportingRecord_loop llama [] pre st = (e, s)" by fastforce
  from scanReportingRecord_loop_no_plans [OF assms(1), of llama "[]" st] p obtain new where
    n: "stdout s = stdout st @ new" "matches_with [] new" by auto
  have "stdout (snd (scanReportingRecord llama (pre @ post) st)) = stdout s"
    unfolding scanReportingRecord_def scanReportingRecord_loop_append [OF assms(1)] p
    using scanReportingRecord_loop_no_files [OF assms(2), of llama "[]" s]
    by (cases e) simp_all
  with n show ?thesis
    by (auto simp: emitted_def matches_with_def)
qed

theorem eins_empty_when_files_precede_plans_witness:
  "''reporting_plans'' \<notin> fst ` set [(''in_network_files'', JArray [JObject [(''description'', JString ''NY PPO Plan''),
                                        (''location'', JString ''https://host/path/a.json'')]])]
   \<and> ''in_network_files'' \<notin> fst ` set [(''reporting_plans'', JArray [JObject [(''plan_id_type'', JString ''EIN''),
                                        (''plan_id'', JString ''123'')]])]
   \<and> emitted (init_state\<lparr>isAnalysisMode := True\<rparr>)
        (snd (scanReportingRecord (\<lambda>n p t. Inl LlmUnavailable)
                ([(''in_network_files'', JArray [JObject [(''description'', JString ''NY PPO Plan''),
                                        (''location'', JString ''https://host/path/a.json'')]])]
                 @ [(''reporting_plans'', JArray [JObject [(''plan_id_type'', JString ''EIN''),
                                        (''plan_id'', JString ''123'')]])])
                (init_state\<lparr>isAnalysisMode := True\<rparr>)))
      = [MatchLine \<lparr>mDescription = ''NY PPO Plan'', mLocation = ''https://host/path/a.json'',
                   Eins = [], AIMatch = False, HeuristicMatch = True, RegionCodeMatch = False\<rparr>]
   \<and> Eins \<lparr>mDescription = ''NY PPO Plan'', mLocation = ''https://host/path/a.json'',
             Eins = [], AIMatch = False, HeuristicMatch = True, RegionCodeMatch = False\<rparr> = []"
proof -
  let ?pre = "[(''in_network_files'', JArray [JObject [(''description'', JString ''NY PPO Plan''),
                                        (''location'', JString ''https://host/path/a.json'')]])]"
  let ?post = "[(''reporting_plans'', JArray [JObject [(''plan_id_type'', JString ''EIN''),
                                        (''plan_id'', JString ''123'')]])]"
  let ?st = "init_state\<lparr>isAnalysisMode := True\<rparr>"
  let ?m = "\<lparr>mDescription = ''NY PPO Plan'', mLocation = ''https://host/path/a.json'',
             Eins = [], AIMatch = False, HeuristicMatch = True, RegionCodeMatch = False\<rparr>"
  have h1: "''reporting_plans'' \<notin> fst ` set ?pre" by simp
  have h2: "''in_network_files'' \<notin> fst ` set ?post" by simp
  have e: "emitted ?st (snd (scanReportingRecord (\<lambda>n p t. Inl LlmUnavailable) (?pre @ ?post) ?st)) = [MatchLine ?m]"
    by code_simp
  from eins_empty_when_files_precede_plans [OF h1 h2, of ?st "(\<lambda>n p t. Inl LlmUnavailable)"] e
  have "Eins ?m = []" by simp
  with h1 h2 e show ?thesis by simp
qed

lemma run_degraded:
  assumes "unavailable down"
  shows "fst (run args ollama_New down input init_state) = fst (run args ollama_New llama input init_state)"
proof (cases "length args < 2 \<or> (length args \<ge> 3 \<and> args ! 2 \<noteq> ''-uniquePlans''
      \<and> args ! 2 \<noteq> ''-analysis'' \<and> args ! 2 \<noteq> ''-heuristics'')")
  case True
  then show ?thesis by (auto simp: run_def printUsage_def)
next
  case False
  then have a: "\<not> length args < 2"
    and b: "\<not> (length args \<ge> 3 \<and> args ! 2 \<noteq> ''-uniquePlans''
                \<and> args ! 2 \<noteq> ''-analysis'' \<and> args ! 2 \<noteq> ''-heuristics'')"
    by blast+
  define st1 where "st1 =
             (if length args \<ge> 3 then
                (if args ! 2 = ''-uniquePlans'' then init_state\<lparr>isUniquePlansMode := True\<rparr>
                 else if args ! 2 = ''-analysis'' then init_state\<lparr>isAnalysisMode := True\<rparr>
                 else init_state\<lparr>isHeuristicsMode := True\<rparr>)
              else init_state\<lparr>isHeuristicsMode := True\<rparr>)"
  show ?thesis
  proof (cases ollama_New)
    case (Some e)
    show ?thesis
      unfolding run_def if_not_P [OF a] if_not_P [OF b] st1_def [symmetric] Some
      by (simp add: Let_def)
  next
    case None
    show ?thesis
    proof (cases input)
      case (Inl err)
      show ?thesis
        unfolding run_def if_not_P [OF a] if_not_P [OF b] st1_def [symmetric] None Inl
        by (simp add: Let_def split: prod.splits)
    next
      case (Inr doc)
      obtain res st2 where g: "GenerateContent down helloPrompt [] st1 = (res, st2)" by fastforce
      obtain res' st2' where g': "GenerateContent llama helloPrompt [] st1 = (res', st2')" by fastforce
      define st3 where "st3 =
                   (case res of
                      Inl err \<Rightarrow>
                        if isAnalysisMode st2 then st2\<lparr>stdout := stdout st2 @ [WarningLine]\<rparr> else st2
                    | Inr msg \<Rightarrow> st2\<lparr>stdout := stdout st2 @ [AuditLine msg]\<rparr>)"
      define st3' where "st3' =
                   (case res' of
                      Inl err \<Rightarrow>
                        if isAnalysisMode st2' then st2'\<lparr>stdout := stdout st2' @ [WarningLine]\<rparr> else st2'
                    | Inr msg \<Rightarrow> st2'\<lparr>stdout := stdout st2' @ [AuditLine msg]\<rparr>)"
      have "same_globals st1 st2" "same_globals st1 st2'"
        using g g' by (auto simp: GenerateContent_def same_globals_def)
      then have s: "same_globals st3 st3'"
        by (cases res; cases res') (auto simp: st3_def st3'_def same_globals_def)
      from parseIndexFile_degraded [OF assms s, of doc llama]
      have e: "fst (parseIndexFile down doc st3) = fst (parseIndexFile llama doc st3')" by simp
      obtain r s4 where p: "parseIndexFile down doc st3 = (r, s4)" by fastforce
      obtain r' s4' where p': "parseIndexFile llama doc st3' = (r', s4')" by fastforce
      from e p p' have rr: "r' = r" by simp
      show ?thesis
        unfolding run_def if_not_P [OF a] if_not_P [OF b] st1_def [symmetric] None Inr
        by (cases r) (simp_all add: Let_def g g' st3_def [symmetric] st3'_def [symmetric] p p' rr)
    qed
  qed
qed

text \<open>
  Claim C6. When every request to the service returns an error, the walker and \<open>run\<close>
  return the same error or success as with any other service, so the failures of the
  service abort nothing; the lines the walker writes are the lines written with the other
  service that the naive or the region-code signal drives, with \<open>aiMatch\<close> false; and
  \<open>aiMatch\<close> is false in every match result written.
\<close>

theorem unavailable_service_degrades:
  assumes "unavailable down"
  shows "fst (parseIndexFile down doc st) = fst (parseIndexFile llama doc st)
         \<and> fst (run args ollama_New down input init_state)
             = fst (run args ollama_New llama input init_state)
         \<and> emitted st (snd (parseIndexFile down doc st))
             = degrade (emitted st (snd (parseIndexFile llama doc st)))
         \<and> (\<forall>m. MatchLine m \<in> set (emitted st (snd (parseIndexFile down doc st))) \<longrightarrow> \<not> AIMatch m)"
proof -
  from parseIndexFile_degraded [OF assms same_globals_refl, where st = st and doc = doc and llama = llama]
  have e: "fst (parseIndexFile down doc st) = fst (parseIndexFile llama doc st)"
    and d: "degraded st st (snd (parseIndexFile down doc st)) (snd (parseIndexFile llama doc st))"
    by simp_all
  have r: "fst (run args ollama_New down input init_state)
             = fst (run args ollama_New llama input init_state)"
    by (rule run_degraded [OF assms])
  from degraded_emitted [OF d] e r degrade_no_ai show ?thesis by metis
qed

theorem unavailable_service_degrades_witness:
  "unavailable (\<lambda>n p t. Inl LlmUnavailable)
   \<and> fst (parseIndexFile (\<lambda>n p t. Inl LlmUnavailable)
           (JObject [(''reporting_structure'', JArray [JObject
              [(''reporting_plans'', JArray [JObject [(''plan_id_type'', JString ''EIN''),
                                        (''plan_id'', JString ''123'')]]),
               (''in_network_files'', JArray [JObject [(''description'', JString ''NY PPO Plan''),
                                        (''location'', JString ''https://host/path/a.json'')],
                                        JObject [(''description'', JString ''Dental''),
                                        (''location'', JString ''https://host/path/b.json'')]])]])])
           (init_state\<lparr>isAnalysisMode := True\<rparr>)) = None
   \<and> emitted (init_state\<lparr>isAnalysisMode := True\<rparr>)
        (snd (parseIndexFile (\<lambda>n p t. Inl LlmUnavailable)
           (JObject [(''reporting_structure'', JArray [JObject
              [(''reporting_plans'', JArray [JObject [(''plan_id_type'', JString ''EIN''),
                                        (''plan_id'', JString ''123'')]]),
               (''in_network_files'', JArray [JObject [(''description'', JString ''NY PPO Plan''),
                                        (''location'', JString ''https://host/path/a.json'')],
                                        JObject [(''description'', JString ''Dental''),
                                        (''location'', JString ''https://host/path/b.json'')]])]])])
           (init_state\<lparr>isAnalysisMode := True\<rparr>)))
      = [MatchLine \<lparr>mDescription = ''NY PPO Plan'', mLocation = ''https://host/path/a.json'',
                   Eins = [''123''], AIMatch = False, HeuristicMatch = True, RegionCodeMatch = False\<rparr>]"
proof -
  let ?down = "(\<lambda>n p t. Inl LlmUnavailable) :: llm"
  let ?up = "(\<lambda>n p t. Inr ''true'') :: llm"
  let ?doc = "JObject [(''reporting_structure'', JArray [JObject
              [(''reporting_plans'', JArray [JObject [(''plan_id_type'', JString ''EIN''),
                                        (''plan_id'', JString ''123'')]]),
               (''in_network_files'', JArray [JObject [(''description'', JString ''NY PPO Plan''),
                                        (''location'', JString ''https://host/path/a.json'')],
                                        JObject [(''description'', JString ''Dental''),
                                        (''location'', JString ''https://host/path/b.json'')]])]])]"
  let ?st = "init_state\<lparr>isAnalysisMode := True\<rparr>"
  have u: "unavailable ?down" by (simp add: unavailable_def)
  have r: "fst (parseIndexFile ?up ?doc ?st) = None"
    by code_simp
  have e: "degrade (emitted ?st (snd (parseIndexFile ?up ?doc ?st)))
           = [MatchLine \<lparr>mDescription = ''NY PPO Plan'', mLocation = ''https://host/path/a.json'',
                   Eins = [''123''], AIMatch = False, HeuristicMatch = True, RegionCodeMatch = False\<rparr>]"
    by code_simp
  from unavailable_service_degrades [OF u, where doc = ?doc and st = ?st and llama = ?up] r e u
  show ?thesis by simp
qed

section \<open>Fatal structural errors\<close>

lemma parseReportingStructure_loop_not_object:
  "\<exists>tok \<in> set toks. \<not> isObject tok \<Longrightarrow>
   \<exists>err. fst (parseReportingStructure_loop llama toks st) = Some err"
proof (induction toks arbitrary: st)
  case Nil
  then show ?case by simp
next
  case (Cons tok toks)
  show ?case
  proof (cases "isObject tok")
    case False
    then show ?thesis by (cases tok) simp_all
  next
    case True
    then obtain ms where tok: "tok = JObject ms" by (cases tok) simp_all
    from True Cons.prems have rest: "\<exists>tok \<in> set toks. \<not> isObject tok" by auto
    obtain r s where d: "scanReportingRecord llama ms st = (r, s)" by fastforce
    show ?thesis
      using Cons.IH [OF rest, of s] by (cases r) (simp_all add: tok d)
  qed
qed

lemma parseReportingStructure_malformed:
  "\<not> isArray v \<or> (\<exists>toks tok. v = JArray toks \<and> tok \<in> set toks \<and> \<not> isObject tok) \<Longrightarrow>
   \<exists>err. fst (parseReportingStructure llama v st) = Some err"
proof (cases v)
  case (JArray toks)
  assume "\<not> isArray v \<or> (\<exists>toks tok. v = JArray toks \<and> tok \<in> set toks \<and> \<not> isObject tok)"
  with JArray have "\<exists>tok \<in> set toks. \<not> isObject tok" by auto
  from parseReportingStructure_loop_not_object [OF this] JArray show ?thesis
    by (simp add: parseReportingStructure_def)
qed (simp_all add: parseReportingStructure_def)

lemma parseIndexFile_loop_malformed:
  "(''reporting_structure'', v) \<in> set ms \<Longrightarrow>
   \<not> isArray v \<or> (\<exists>toks tok. v = JArray toks \<and> tok \<in> set toks \<and> \<not> isObject tok) \<Longrightarrow>
   \<exists>err. fst (parseIndexFile_loop llama ms st) = Some err"
proof (induction ms arbitrary: st)
  case Nil
  then show ?case by simp
next
  case (Cons kv ms)
  obtain key w where kv: "kv = (key, w)" by (cases kv)
  show ?case
  proof (cases "key = ''reporting_structure''")
    case False
    with Cons.prems kv have "(''reporting_structure'', v) \<in> set ms" by auto
    from Cons.IH [OF this Cons.prems(2)] False show ?thesis by (simp add: kv)
  next
    case True
    obtain r s where d: "parseReportingStructure llama w st = (r, s)" by fastforce
    show ?thesis
    proof (cases r)
      case (Some err)
      then show ?thesis by (simp add: kv True d)
    next
      case None
      have "w \<noteq> v"
      proof
        assume "w = v"
        with parseReportingStructure_malformed [OF Cons.prems(2), of llama st] d None
        show False by simp
      qed
      with Cons.prems(1) kv have "(''reporting_structure'', v) \<in> set ms" by auto
      from Cons.IH [OF this Cons.prems(2), of s] show ?thesis by (simp add: kv True d None)
    qed
  qed
qed

lemma parseIndexFile_malformed:
  assumes "malformed_shape doc"
  shows "\<exists>err. fst (parseIndexFile llama doc st) = Some err"
proof (cases doc)
  case (JObject members)
  with assms obtain v where v: "(''reporting_structure'', v) \<in> set members"
    "\<not> isArray v \<or> (\<exists>tok \<in> set (elements v). \<not> isObject tok)"
    by (auto simp: malformed_shape_def reporting_structure_values_def)
  then have "\<not> isArray v \<or> (\<exists>toks tok. v = JArray toks \<and> tok \<in> set toks \<and> \<not> isObject tok)"
    by (cases v) auto
  from parseIndexFile_loop_malformed [OF v(1) this] JObject show ?thesis
    by (simp add: parseIndexFile_def)
qed (simp_all add: parseIndexFile_def)

lemma matches_with_no_strings:
  "stdout st' = stdout st @ new \<Longrightarrow> matches_with eins new \<Longrightarrow> no_strings st \<Longrightarrow> no_strings st'"
  by (auto simp: no_strings_def matches_with_def)

lemma scanReportingRecord_loop_no_strings:
  "no_strings st \<Longrightarrow> no_strings (snd (scanReportingRecord_loop llama eins ms st))"
proof (induction ms arbitrary: eins st)
  case Nil
  then show ?case by simp
next
  case (Cons kv ms)
  obtain key v where kv: "kv = (key, v)" by (cases kv)
  show ?case
  proof (cases "key = ''in_network_files''")
    case False
    then show ?thesis using Cons.IH [OF Cons.prems]
      by (cases "processReportingPlan v") (simp_all add: kv Cons.prems)
  next
    case True
    obtain e s where d: "inNetworkFiles_dispatch llama eins v st = (e, s)" by fastforce
    from inNetworkFiles_dispatch_emits [of llama eins v st] d obtain new where
      "stdout s = stdout st @ new" "matches_with eins new" by auto
    then have s: "no_strings s" using Cons.prems by (rule matches_with_no_strings)
    show ?thesis
      unfolding kv True scanReportingRecord_loop_files d
      using s Cons.IH [OF s] by (cases e) simp_all
  qed
qed

lemma parseReportingStructure_loop_no_strings:
  "no_strings st \<Longrightarrow> no_strings (snd (parseReportingStructure_loop llama toks st))"
proof (induction toks arbitrary: st)
  case Nil
  then show ?case by simp
next
  case (Cons tok toks)
  show ?case
  proof (cases tok)
    case (JObject ms)
    obtain r s where d: "scanReportingRecord_loop llama [] ms st = (r, s)" by fastforce
    from scanReportingRecord_loop_no_strings [OF Cons.prems, of llama "[]" ms] d
    have s: "no_strings s" by simp
    show ?thesis
      using s Cons.IH [OF s] by (cases r) (simp_all add: JObject scanReportingRecord_def d)
  qed (simp_all add: Cons.prems)
qed

lemma parseReportingStructure_no_strings:
  "no_strings st \<Longrightarrow> no_strings (snd (parseReportingStructure llama v st))"
  using parseReportingStructure_loop_no_strings
  by (cases v) (simp_all add: parseReportingStructure_def)

lemma parseIndexFile_loop_no_strings:
  "no_strings st \<Longrightarrow> no_strings (snd (parseIndexFile_loop llama ms st))"
proof (induction ms arbitrary: st)
  case Nil
  then show ?case by simp
next
  case (Cons kv ms)
  obtain key v where kv: "kv = (key, v)" by (cases kv)
  show ?case
  proof (cases "key = ''reporting_structure''")
    case False
    then show ?thesis using Cons.IH [OF Cons.prems] by (simp add: kv)
  next
    case True
    obtain r s where d: "parseReportingStructure llama v st = (r, s)" by fastforce
    have s: "no_strings s"
      using parseReportingStructure_no_strings [OF Cons.prems, of llama v] d by simp
    show ?thesis
      using s Cons.IH [OF s] by (cases r) (simp_all add: kv True d)
  qed
qed

lemma parseIndexFile_no_strings:
  "no_strings st \<Longrightarrow> no_strings (snd (parseIndexFile llama doc st))"
  using parseIndexFile_loop_no_strings by (cases doc) (simp_all add: parseIndexFile_def)

lemma run_malformed:
  assumes "malformed_shape doc"
  shows "\<exists>err st'. run args ollama_New llama (Inr doc) init_state = (Some err, st') \<and> no_strings st'"
proof -
  have parse: "\<exists>err st'. parseIndexFile llama doc st = (Some err, st') \<and> no_strings st'"
    if "no_strings st" for st
    using parseIndexFile_malformed [OF assms, of llama st] parseIndexFile_no_strings [OF that, of llama doc]
    by (cases "parseIndexFile llama doc st") auto
  have i: "no_strings init_state" by (simp add: no_strings_def init_state_def)
  show ?thesis
  proof (cases "length args < 2 \<or> (length args \<ge> 3 \<and> args ! 2 \<noteq> ''-uniquePlans''
      \<and> args ! 2 \<noteq> ''-analysis'' \<and> args ! 2 \<noteq> ''-heuristics'')")
    case True
    then show ?thesis
      using i by (auto simp: run_def printUsage_def no_strings_def)
  next
    case False
    then have a: "\<not> length args < 2"
      and b: "\<not> (length args \<ge> 3 \<and> args ! 2 \<noteq> ''-uniquePlans''
                  \<and> args ! 2 \<noteq> ''-analysis'' \<and> args ! 2 \<noteq> ''-heuristics'')"
      by blast+
    define st1 where "st1 =
               (if length args \<ge> 3 then
                  (if args ! 2 = ''-uniquePlans'' then init_state\<lparr>isUniquePlansMode := True\<rparr>
                   else if args ! 2 = ''-analysis'' then init_state\<lparr>isAnalysisMode := True\<rparr>
                   else init_state\<lparr>isHeuristicsMode := True\<rparr>)
                else init_state\<lparr>isHeuristicsMode := True\<rparr>)"
    have s1: "no_strings st1" using i by (simp add: st1_def no_strings_def)
    show ?thesis
    proof (cases ollama_New)
      case (Some e)
      show ?thesis
        unfolding run_def if_not_P [OF a] if_not_P [OF b] st1_def [symmetric] Some
        using s1 by (simp add: Let_def)
    next
      case None
      obtain res st2 where g: "GenerateContent llama helloPrompt [] st1 = (res, st2)" by fastforce
      then have s2: "no_strings st2" using s1 by (auto simp: GenerateContent_def no_strings_def)
      define st3 where "st3 =
                   (case res of
                      Inl err \<Rightarrow>
                        if isAnalysisMode st2 then st2\<lparr>stdout := stdout st2 @ [WarningLine]\<rparr> else st2
                    | Inr msg \<Rightarrow> st2\<lparr>stdout := stdout st2 @ [AuditLine msg]\<rparr>)"
      have s3: "no_strings st3" using s2 by (cases res) (auto simp: st3_def no_strings_def)
      from parse [OF s3] obtain err st' where
        p: "parseIndexFile llama doc st3 = (Some err, st')" "no_strings st'" by blast
      show ?thesis
        unfolding run_def if_not_P [OF a] if_not_P [OF b] st1_def [symmetric] None
        using p by (simp add: Let_def g st3_def [symmetric])
    qed
  qed
qed

text \<open>
  Claim C9. For a document of malformed top-level shape the walker returns an error in
  every state, \<open>main\<close> exits with code 1 for every command line and service, and the run
  prints none of the accumulated plan names or locations: \<open>run\<close> returns the error before
  it reaches the printing of the accumulators.
\<close>

theorem malformed_shape_is_fatal:
  assumes "malformed_shape doc"
  shows "(\<exists>err. fst (parseIndexFile llama doc st) = Some err)
         \<and> fst (main args ollama_New llama (Inr doc)) = 1
         \<and> (\<forall>s. StringLine s \<notin> set (snd (main args ollama_New llama (Inr doc))))"
proof -
  from run_malformed [OF assms, of args ollama_New llama] obtain err st' where
    "run args ollama_New llama (Inr doc) init_state = (Some err, st')" "no_strings st'" by blast
  then show ?thesis
    using parseIndexFile_malformed [OF assms, of llama st]
    by (simp add: main_def no_strings_def)
qed

theorem malformed_shape_is_fatal_witness:
  "malformed_shape (JObject [(''reporting_structure'', JArray [JObject [], JString ''x''])])
   \<and> main [''extract'', ''index.json.gz''] None (\<lambda>n p t. Inl LlmUnavailable)
        (Inr (JObject [(''reporting_structure'', JArray [JObject [], JString ''x''])]))
      = (1, [])"
proof -
  let ?doc = "JObject [(''reporting_structure'', JArray [JObject [], JString ''x''])]"
  have h: "malformed_shape ?doc"
    by (simp add: malformed_shape_def reporting_structure_values_def)
  have s: "snd (main [''extract'', ''index.json.gz''] None (\<lambda>n p t. Inl LlmUnavailable) (Inr ?doc)) = []"
    by code_simp
  from malformed_shape_is_fatal [OF h, of "(\<lambda>n p t. Inl LlmUnavailable)" init_state "[''extract'', ''index.json.gz'']" None]
  have "fst (main [''extract'', ''index.json.gz''] None (\<lambda>n p t. Inl LlmUnavailable) (Inr ?doc)) = 1"
    by simp
  with s h show ?thesis by (simp add: prod_eq_iff)
qed

end
